theory Spec2Isabelle
  imports Main
begin

section \<open>The control API: configuration endpoints (internal/core/api.go)\<close>

subsection \<open>Struct types, struct values and the JSON body\<close>

text \<open>
  The handlers work on \<open>conf.Conf\<close> and \<open>conf.PathConf\<close> through reflection. The two
  struct types are declared in the package \<open>conf\<close>, which is not among the sources, so a
  struct type is a parameter: the list of its fields, each with its Go name, its \<open>json\<close>
  tag and whether its kind is \<open>reflect.Ptr\<close>.
\<close>

datatype kind = Ptr | NonPtr

record sfield =
  fname :: string
  ftag :: string
  fkind :: kind

text \<open>
  A struct value gives every field name a value of the abstract type \<open>'v\<close>. The
  configuration has its \<open>Paths\<close> map apart from the other fields; path entries are
  taken non-nil.
\<close>

type_synonym 'v struct = "string \<Rightarrow> 'v"

record 'v Conf =
  globals :: "'v struct"
  Paths :: "string \<rightharpoonup> 'v struct"

text \<open>
  The struct built by \<open>generateStructWithOptionalFields\<close> has one pointer per kept field:
  the field descriptor it was made from, and \<open>None\<close> for a nil pointer.
\<close>

type_synonym 'v optstruct = "(sfield \<times> 'v option) list"

text \<open>
  A request or response body: either not decodable as a JSON object, or the members of
  the object in order, each value being \<open>null\<close> or some other JSON text of type \<open>'j\<close>.
\<close>

datatype 'j json = JNull | JVal 'j

datatype 'j body = Malformed | Object "(string \<times> 'j json) list"

datatype 'j response = Status nat | JSON nat "'j body" | Panic

definition StatusOK :: nat where "StatusOK = 200"
definition StatusBadRequest :: nat where "StatusBadRequest = 400"

text \<open>
  What the handlers use and the sources do not contain, gathered in one record:
  \<^item> \<open>confModel\<close>, \<open>pathModel\<close>: the fields of \<open>conf.Conf\<close> and \<open>conf.PathConf\<close>;
  \<^item> \<open>pathZero\<close>: the zero value \<open>conf.PathConf{}\<close>;
  \<^item> \<open>unmarshal\<close>: \<open>encoding/json\<close> decoding one non-null JSON text into a field's
    type (\<open>None\<close> is a decoding error);
  \<^item> \<open>unmarshalInto\<close>: the same decoding into a value the pointer already holds;
  \<^item> \<open>equalFold\<close>: the decoder's case-insensitive comparison of a field's key with a
    key of the body;
  \<^item> \<open>marshal\<close>, \<open>marshalPaths\<close>: \<open>encoding/json\<close> encoding a field's value and the
    paths map;
  \<^item> \<open>Check\<close>: the configuration's validation (\<open>None\<close> is no error).
\<close>

record ('v, 'j) deps =
  confModel :: "sfield list"
  pathModel :: "sfield list"
  pathZero :: "'v struct"
  unmarshal :: "sfield \<Rightarrow> 'j \<Rightarrow> 'v option"
  unmarshalInto :: "sfield \<Rightarrow> 'v \<Rightarrow> 'j \<Rightarrow> 'v option"
  equalFold :: "string \<Rightarrow> string \<Rightarrow> bool"
  marshal :: "sfield \<Rightarrow> 'v \<Rightarrow> 'j json"
  marshalPaths :: "(string \<rightharpoonup> 'v struct) \<Rightarrow> 'j json"
  Check :: "'v Conf \<Rightarrow> string option"

text \<open>
  Modelled from the spec: \<open>Conf.Check\<close> is not among the sources. The spec calls it the
  validation of the resulting configuration, so it accepts or rejects a configuration
  and leaves it as it is. \<open>Conf.Clone\<close> is not among the sources either; the handlers
  build the new configuration on it, so it is a copy that shares nothing with the
  stored configuration.
\<close>

definition Clone :: "'v Conf \<Rightarrow> 'v Conf" where
  "Clone c = c"

subsection \<open>fillStruct and generateStructWithOptionalFields\<close>

text \<open>
  \<open>fillStruct dest source\<close> walks the fields of \<open>source\<close>; a non-nil field is written to
  the field of \<open>dest\<close> with the same name. \<open>FieldByName\<close> looks the name up in the type
  of \<open>dest\<close>. When the destination field has kind \<open>Ptr\<close> the code sets it to the
  pointer itself, whose type is a pointer to the field's type: \<open>reflect.Value.Set\<close>
  panics. A name the destination type lacks gives the zero \<open>Value\<close>, and \<open>Set\<close> panics
  too. \<open>None\<close> is the panic.
\<close>

definition FieldByName :: "sfield list \<Rightarrow> string \<Rightarrow> sfield option" where
  "FieldByName T n = find (\<lambda>f. fname f = n) T"

fun fillStruct :: "sfield list \<Rightarrow> 'v struct \<Rightarrow> 'v optstruct \<Rightarrow> 'v struct option" where
  "fillStruct T dest [] = Some dest"
| "fillStruct T dest ((sf, None) # rest) = fillStruct T dest rest"
| "fillStruct T dest ((sf, Some v) # rest) =
     (case FieldByName T (fname sf) of
        None \<Rightarrow> None
      | Some f \<Rightarrow>
          if fkind f = Ptr then None
          else fillStruct T (dest(fname sf := v)) rest)"

definition optional :: "sfield \<Rightarrow> bool" where
  "optional f \<longleftrightarrow> ftag f \<noteq> ''-'' \<and> ftag f \<noteq> ''paths''"

definition generateStructWithOptionalFields :: "sfield list \<Rightarrow> 'v optstruct" where
  "generateStructWithOptionalFields model =
     map (\<lambda>f. (f, None)) (filter optional model)"

subsection \<open>Decoding and encoding\<close>

text \<open>
  \<open>json.Decoder.Decode\<close> into the struct of optional fields. The JSON key of a field is
  its tag. The members of the body are read in order. A member's key is looked up among
  the fields: the field whose key is exactly the member's, else the first field whose key
  equals it up to case; a member that finds no field is skipped (the decoder is not
  asked to reject unknown fields). A \<open>null\<close> sets the field's pointer to nil. Any other
  text is decoded into the field: into a fresh value when the pointer is nil, into the
  value it holds otherwise. A text that does not decode makes the whole call fail.
\<close>

definition fieldFor :: "('v, 'j) deps \<Rightarrow> sfield list \<Rightarrow> string \<Rightarrow> sfield option" where
  "fieldFor W fs k =
     (case find (\<lambda>f. ftag f = k) fs of
        Some f \<Rightarrow> Some f
      | None \<Rightarrow> find (\<lambda>f. equalFold W (ftag f) k) fs)"

definition pointer :: "'v optstruct \<Rightarrow> sfield \<Rightarrow> 'v option" where
  "pointer inp f = (case map_of inp f of Some p \<Rightarrow> p | None \<Rightarrow> None)"

definition setPointer :: "sfield \<Rightarrow> 'v option \<Rightarrow> 'v optstruct \<Rightarrow> 'v optstruct" where
  "setPointer f p inp = map (\<lambda>(g, q). if g = f then (g, p) else (g, q)) inp"

definition decodeValue :: "('v, 'j) deps \<Rightarrow> sfield \<Rightarrow> 'v option \<Rightarrow> 'j \<Rightarrow> 'v option" where
  "decodeValue W f p j =
     (case p of None \<Rightarrow> unmarshal W f j | Some old \<Rightarrow> unmarshalInto W f old j)"

definition decodeMember ::
  "('v, 'j) deps \<Rightarrow> string \<times> 'j json \<Rightarrow> 'v optstruct \<Rightarrow> 'v optstruct option" where
  "decodeMember W m inp =
     (case fieldFor W (map fst inp) (fst m) of
        None \<Rightarrow> Some inp
      | Some f \<Rightarrow>
          (case snd m of
             JNull \<Rightarrow> Some (setPointer f None inp)
           | JVal j \<Rightarrow>
               (case decodeValue W f (pointer inp f) j of
                  None \<Rightarrow> None
                | Some v \<Rightarrow> Some (setPointer f (Some v) inp))))"

fun Decode ::
  "('v, 'j) deps \<Rightarrow> (string \<times> 'j json) list \<Rightarrow> 'v optstruct \<Rightarrow> 'v optstruct option" where
  "Decode W [] inp = Some inp"
| "Decode W (m # ms) inp =
     (case decodeMember W m inp of
        None \<Rightarrow> None
      | Some inp' \<Rightarrow> Decode W ms inp')"

text \<open>
  Two readings of a body, for stating what decoding does to one field: the values the
  body gives the field (those of the members whose key is looked up to it, in order),
  and the pointer the field ends with after these values, starting from \<open>p\<close> (\<open>None\<close>
  when one of them does not decode).
\<close>

definition valuesFor ::
  "('v, 'j) deps \<Rightarrow> sfield list \<Rightarrow> (string \<times> 'j json) list \<Rightarrow> sfield \<Rightarrow> 'j json list" where
  "valuesFor W fs ms f = map snd (filter (\<lambda>m. fieldFor W fs (fst m) = Some f) ms)"

fun finalPointer ::
  "('v, 'j) deps \<Rightarrow> sfield \<Rightarrow> 'j json list \<Rightarrow> 'v option \<Rightarrow> 'v option option" where
  "finalPointer W f [] p = Some p"
| "finalPointer W f (JNull # vs) p = finalPointer W f vs None"
| "finalPointer W f (JVal j # vs) p =
     (case decodeValue W f p j of
        None \<Rightarrow> None
      | Some v \<Rightarrow> finalPointer W f vs (Some v))"

definition loadData :: "('v, 'j) deps \<Rightarrow> sfield list \<Rightarrow> 'j body \<Rightarrow> 'v optstruct option" where
  "loadData W model b =
     (let inp = generateStructWithOptionalFields model
      in case b of Malformed \<Rightarrow> None | Object ms \<Rightarrow> Decode W ms inp)"

definition loadConfData :: "('v, 'j) deps \<Rightarrow> 'j body \<Rightarrow> 'v optstruct option" where
  "loadConfData W b = loadData W (confModel W) b"

definition loadConfPathData :: "('v, 'j) deps \<Rightarrow> 'j body \<Rightarrow> 'v optstruct option" where
  "loadConfPathData W b = loadData W (pathModel W) b"

text \<open>
  \<open>ctx.JSON\<close> of the configuration: one member per field whose tag is not \<open>-\<close>, the
  member tagged \<open>paths\<close> holding the paths map.
\<close>

definition encodeConf :: "('v, 'j) deps \<Rightarrow> 'v Conf \<Rightarrow> (string \<times> 'j json) list" where
  "encodeConf W c =
     map (\<lambda>f. (ftag f,
                if ftag f = ''paths'' then marshalPaths W (Paths c)
                else marshal W f (globals c (fname f))))
         (filter (\<lambda>f. ftag f \<noteq> ''-'') (confModel W))"

subsection \<open>The handlers\<close>

text \<open>
  The state of the API object: the stored configuration \<open>a.conf\<close>, and the
  configurations handed to \<open>parent.apiConfigSet\<close> so far, in order. The mutex makes each
  handler one step; logging is left out. \<open>commit\<close> is the tail every mutating handler
  ends with: \<open>a.conf = newConf\<close>, then \<open>go a.parent.apiConfigSet(newConf)\<close>.
\<close>

record 'v api =
  conf :: "'v Conf"
  reloads :: "'v Conf list"

definition onConfigGet :: "('v, 'j) deps \<Rightarrow> 'v api \<Rightarrow> 'j response \<times> 'v api" where
  "onConfigGet W a = (JSON StatusOK (Object (encodeConf W (conf a))), a)"

definition commit :: "'v Conf \<Rightarrow> 'v api \<Rightarrow> 'v api" where
  "commit newConf a = a\<lparr>conf := newConf, reloads := reloads a @ [newConf]\<rparr>"

definition onConfigSet :: "('v, 'j) deps \<Rightarrow> 'j body \<Rightarrow> 'v api \<Rightarrow> 'j response \<times> 'v api" where
  "onConfigSet W b a =
     (case loadConfData W b of
        None \<Rightarrow> (Status StatusBadRequest, a)
      | Some inp \<Rightarrow>
          (let newConf = Clone (conf a)
           in (case fillStruct (confModel W) (globals newConf) inp of
                 None \<Rightarrow> (Panic, a)
               | Some g \<Rightarrow>
                   (let newConf = newConf\<lparr>globals := g\<rparr>
                    in (case Check W newConf of
                          Some err \<Rightarrow> (Status StatusBadRequest, a)
                        | None \<Rightarrow> (Status StatusOK, commit newConf a))))))"

text \<open>The name parameter: at least two characters, the first a slash, which is dropped.\<close>

definition paramName :: "string \<Rightarrow> string option" where
  "paramName name =
     (if length name < 2 \<or> hd name \<noteq> CHR ''/'' then None else Some (tl name))"

definition onConfigPathsAdd ::
  "('v, 'j) deps \<Rightarrow> string \<Rightarrow> 'j body \<Rightarrow> 'v api \<Rightarrow> 'j response \<times> 'v api" where
  "onConfigPathsAdd W name0 b a =
     (case paramName name0 of
        None \<Rightarrow> (Status StatusBadRequest, a)
      | Some name \<Rightarrow>
          (case loadConfPathData W b of
             None \<Rightarrow> (Status StatusBadRequest, a)
           | Some inp \<Rightarrow>
               (let newConf = Clone (conf a)
                in if Paths newConf name \<noteq> None then (Status StatusBadRequest, a)
                   else
                     (case fillStruct (pathModel W) (pathZero W) inp of
                        None \<Rightarrow> (Panic, a)
                      | Some newConfPath \<Rightarrow>
                          (let newConf =
                                 newConf\<lparr>Paths := (Paths newConf)(name \<mapsto> newConfPath)\<rparr>
                           in (case Check W newConf of
                                 Some err \<Rightarrow> (Status StatusBadRequest, a)
                               | None \<Rightarrow> (Status StatusOK, commit newConf a)))))))"

definition onConfigPathsEdit ::
  "('v, 'j) deps \<Rightarrow> string \<Rightarrow> 'j body \<Rightarrow> 'v api \<Rightarrow> 'j response \<times> 'v api" where
  "onConfigPathsEdit W name0 b a =
     (case paramName name0 of
        None \<Rightarrow> (Status StatusBadRequest, a)
      | Some name \<Rightarrow>
          (case loadConfPathData W b of
             None \<Rightarrow> (Status StatusBadRequest, a)
           | Some inp \<Rightarrow>
               (let newConf = Clone (conf a)
                in (case Paths newConf name of
                      None \<Rightarrow> (Status StatusBadRequest, a)
                    | Some newConfPath \<Rightarrow>
                        (case fillStruct (pathModel W) newConfPath inp of
                           None \<Rightarrow> (Panic, a)
                         | Some p \<Rightarrow>
                             (let newConf = newConf\<lparr>Paths := (Paths newConf)(name \<mapsto> p)\<rparr>
                              in (case Check W newConf of
                                    Some err \<Rightarrow> (Status StatusBadRequest, a)
                                  | None \<Rightarrow> (Status StatusOK, commit newConf a))))))))"

definition onConfigPathsDelete ::
  "('v, 'j) deps \<Rightarrow> string \<Rightarrow> 'v api \<Rightarrow> 'j response \<times> 'v api" where
  "onConfigPathsDelete W name0 a =
     (case paramName name0 of
        None \<Rightarrow> (Status StatusBadRequest, a)
      | Some name \<Rightarrow>
          (let newConf = Clone (conf a)
           in if Paths newConf name = None then (Status StatusBadRequest, a)
              else
                (let newConf = newConf\<lparr>Paths := (Paths newConf)(name := None)\<rparr>
                 in (case Check W newConf of
                       Some err \<Rightarrow> (Status StatusBadRequest, a)
                     | None \<Rightarrow> (Status StatusOK, commit newConf a)))))"

definition confReload :: "'v Conf \<Rightarrow> 'v api \<Rightarrow> 'v api" where
  "confReload c a = a\<lparr>conf := c\<rparr>"

text \<open>The four mutating routes registered by \<open>newAPI\<close>.\<close>

datatype 'j request =
    ConfigSet "'j body"
  | ConfigPathsAdd string "'j body"
  | ConfigPathsEdit string "'j body"
  | ConfigPathsRemove string

fun route :: "('v, 'j) deps \<Rightarrow> 'j request \<Rightarrow> 'v api \<Rightarrow> 'j response \<times> 'v api" where
  "route W (ConfigSet b) a = onConfigSet W b a"
| "route W (ConfigPathsAdd name b) a = onConfigPathsAdd W name b a"
| "route W (ConfigPathsEdit name b) a = onConfigPathsEdit W name b a"
| "route W (ConfigPathsRemove name) a = onConfigPathsDelete W name a"


section \<open>Medias, formats, and what the sessions share\<close>

text \<open>
  A format is one of gortsplib's format types with its payload type, clock rate and,
  for G711, the \<open>MULaw\<close> flag; a media is a list of formats. A stream is known by its
  medias. A path is an opaque reference: its methods belong to a file that is not
  among the sources, and appear as parameters or as recorded calls.
\<close>

datatype codec =
  AV1 | VP9 | VP8 | H264 | H265 | Opus | G722 | G711 | MPEG2Audio | MPEG4Audio | Generic

record format =
  codecOf :: codec
  PayloadTyp :: nat
  ClockRate :: nat
  MULaw :: bool

record media =
  control :: string
  Formats :: "format list"

record stream =
  medias :: "media list"

type_synonym path = string

datatype author = RTSPSession string | WebRTCConn string

text \<open>
  Errors. \<open>pathErrAuth\<close> wraps the authentication error, \<open>pathErrNoOnePublishing\<close>
  carries the path name; every other error is its message.
\<close>

datatype err =
    pathErrAuth err
  | pathErrNoOnePublishing string
  | errorString string

text \<open>
  Credentials, as the request literals fill them. A field the literal leaves out has
  the zero value of its type: the empty string, \<open>None\<close> for a nil pointer,
  \<open>authProtocolUnset\<close> for the protocol.
\<close>

datatype authProtocol = authProtocolUnset | authProtocolRTSP

record URL =
  Scheme :: string
  Host :: string
  Path :: string
  RawQuery :: string

record Request =
  Method :: string
  reqURL :: URL

record authCredentials =
  query :: string
  ip :: string
  proto :: authProtocol
  id :: "string option"
  rtspRequest :: "Request option"
  rtspBaseURL :: "URL option"
  rtspNonce :: string

definition noCredentials :: authCredentials where
  "noCredentials =
     \<lparr>query = [], ip = [], proto = authProtocolUnset, id = None, rtspRequest = None,
      rtspBaseURL = None, rtspNonce = []\<rparr>"

record pathPublisherAddReq =
  pubAuthor :: author
  pubPathName :: string
  pubCredentials :: authCredentials

record pathReaderAddReq =
  author :: author
  pathName :: string
  skipAuth :: bool
  credentials :: authCredentials

text \<open>
  Calls that leave the session, in the order they are made. Logging is left out.
\<close>

datatype unitKind =
  UnitH264 | UnitH265 | UnitVP8 | UnitVP9 | UnitMPEG2Audio | UnitMPEG4Audio | UnitOpus
  | UnitGeneric

datatype effect =
    CallPublisherAdd pathPublisherAddReq
  | CallReaderAdd pathReaderAddReq
  | CallPublisherStart "path option" author "media list" bool
  | CallPublisherStop "path option" author
  | CallPublisherRemove "path option" author
  | CallReaderRemove "path option" author
  | CmdNew string bool
  | CmdClose
  | OnPacketRTP media format unitKind

section \<open>The RTSP session (internal/core/rtsp_session.go)\<close>

datatype ServerSessionState =
    ServerSessionStateInitial
  | ServerSessionStatePrePlay
  | ServerSessionStatePlay
  | ServerSessionStatePreRecord
  | ServerSessionStateRecord

datatype Transport = TransportUDP | TransportUDPMulticast | TransportTCP

definition StatusNotFound :: nat where "StatusNotFound = 404"
definition StatusUnsupportedTransport :: nat where "StatusUnsupportedTransport = 461"

record Response =
  StatusCode :: nat
  Header :: "(string \<times> string) list"

definition response :: "nat \<Rightarrow> Response" where
  "response code = \<lparr>StatusCode = code, Header = []\<rparr>"

text \<open>
  The session: \<open>sessionState\<close> is \<open>s.session.State()\<close>, the state gortsplib keeps and
  the handlers read; \<open>state\<close> is the field \<open>s.state\<close> the handlers write;
  \<open>announcedMedias\<close> is \<open>s.session.AnnouncedMedias()\<close>; \<open>onReadCmd\<close> holds the command
  and its restart flag; \<open>effects\<close> are the calls made so far.
\<close>

record rtspSession =
  isTLS :: bool
  protocols :: "Transport set"
  sessionState :: ServerSessionState
  announcedMedias :: "media list"
  uuid :: string
  path :: "path option"
  stream :: "stream option"
  state :: ServerSessionState
  onReadCmd :: "(string \<times> bool) option"
  effects :: "effect list"

record rtspConn =
  authNonce :: string
  connIP :: string
  connUUID :: string

record ServerHandlerCtx =
  ctxPath :: string
  ctxQuery :: string
  ctxTransport :: Transport
  ctxRequest :: Request

record pathConf =
  RunOnRead :: string
  RunOnReadRestart :: bool

text \<open>
  What the session calls and the sources do not contain: the path manager (an
  interface in the source), the path's \<open>publisherStart\<close> and \<open>safeConf\<close>, the
  connection's \<open>handleAuthError\<close>, and the nonce \<open>auth.GenerateNonce\<close> returns. A
  request is answered with an error or with what the result struct holds.
\<close>

record rtspEnv =
  publisherAdd :: "pathPublisherAddReq \<Rightarrow> err + path"
  readerAdd :: "pathReaderAddReq \<Rightarrow> err + path \<times> stream"
  publisherStart :: "path option \<Rightarrow> author \<Rightarrow> media list \<Rightarrow> bool \<Rightarrow> err + stream"
  safeConf :: "path \<Rightarrow> pathConf"
  handleAuthError :: "rtspConn \<Rightarrow> err \<Rightarrow> Response \<times> err option"
  GenerateNonce :: string

fun getRTSPWriteFunc :: "format \<Rightarrow> unitKind" where
  "getRTSPWriteFunc forma =
     (case codecOf forma of
        H264 \<Rightarrow> UnitH264
      | H265 \<Rightarrow> UnitH265
      | VP8 \<Rightarrow> UnitVP8
      | VP9 \<Rightarrow> UnitVP9
      | MPEG2Audio \<Rightarrow> UnitMPEG2Audio
      | MPEG4Audio \<Rightarrow> UnitMPEG4Audio
      | Opus \<Rightarrow> UnitOpus
      | _ \<Rightarrow> UnitGeneric)"

definition invalidPath :: "string \<Rightarrow> bool" where
  "invalidPath p \<longleftrightarrow> length p = 0 \<or> hd p \<noteq> CHR ''/''"

definition ensureNonce :: "rtspEnv \<Rightarrow> rtspConn \<Rightarrow> rtspConn" where
  "ensureNonce E c = (if authNonce c = [] then c\<lparr>authNonce := GenerateNonce E\<rparr> else c)"

text \<open>The request literal of \<open>onAnnounce\<close>, for the stripped path \<open>p\<close>.\<close>

definition announceReq :: "rtspSession \<Rightarrow> rtspConn \<Rightarrow> ServerHandlerCtx \<Rightarrow> string \<Rightarrow> pathPublisherAddReq" where
  "announceReq s c ctx p =
     \<lparr>pubAuthor = RTSPSession (uuid s),
      pubPathName = p,
      pubCredentials =
        \<lparr>query = ctxQuery ctx, ip = connIP c, proto = authProtocolRTSP,
         id = Some (connUUID c), rtspRequest = Some (ctxRequest ctx),
         rtspBaseURL = None, rtspNonce = authNonce c\<rparr>\<rparr>"

definition onAnnounce ::
  "rtspEnv \<Rightarrow> rtspSession \<Rightarrow> rtspConn \<Rightarrow> ServerHandlerCtx
     \<Rightarrow> (Response \<times> err option) \<times> rtspSession \<times> rtspConn" where
  "onAnnounce E s c ctx =
     (if invalidPath (ctxPath ctx)
      then ((response StatusBadRequest, Some (errorString ''invalid path'')), s, c)
      else
        (let p = tl (ctxPath ctx);
             c = ensureNonce E c;
             req = announceReq s c ctx p;
             s = s\<lparr>effects := effects s @ [CallPublisherAdd req]\<rparr>
         in (case publisherAdd E req of
               Inl e \<Rightarrow>
                 (case e of
                    pathErrAuth wrapped \<Rightarrow> (handleAuthError E c wrapped, s, c)
                  | _ \<Rightarrow> ((response StatusBadRequest, Some e), s, c))
             | Inr pa \<Rightarrow>
                 ((response StatusOK, None),
                  s\<lparr>path := Some pa, state := ServerSessionStatePreRecord\<rparr>, c))))"

text \<open>
  The base URL and the request literal of \<open>onSetup\<close> in the play direction, for the
  stripped path \<open>p\<close>.
\<close>

definition setupBaseURL :: "ServerHandlerCtx \<Rightarrow> string \<Rightarrow> URL" where
  "setupBaseURL ctx p =
     (let baseURL =
            \<lparr>Scheme = Scheme (reqURL (ctxRequest ctx)), Host = Host (reqURL (ctxRequest ctx)),
             Path = p, RawQuery = ctxQuery ctx\<rparr>
      in if ctxQuery ctx \<noteq> [] then baseURL\<lparr>RawQuery := RawQuery baseURL @ ''/''\<rparr>
         else baseURL\<lparr>Path := Path baseURL @ ''/''\<rparr>)"

definition setupReq :: "rtspSession \<Rightarrow> rtspConn \<Rightarrow> ServerHandlerCtx \<Rightarrow> string \<Rightarrow> pathReaderAddReq" where
  "setupReq s c ctx p =
     \<lparr>author = RTSPSession (uuid s),
      pathName = p,
      skipAuth = False,
      credentials =
        \<lparr>query = ctxQuery ctx, ip = connIP c, proto = authProtocolRTSP,
         id = Some (connUUID c), rtspRequest = Some (ctxRequest ctx),
         rtspBaseURL = Some (setupBaseURL ctx p), rtspNonce = authNonce c\<rparr>\<rparr>"

definition playDirection :: "ServerSessionState \<Rightarrow> bool" where
  "playDirection st \<longleftrightarrow> st = ServerSessionStateInitial \<or> st = ServerSessionStatePrePlay"

definition onSetup ::
  "rtspEnv \<Rightarrow> rtspSession \<Rightarrow> rtspConn \<Rightarrow> ServerHandlerCtx
     \<Rightarrow> (Response \<times> stream option \<times> err option) \<times> rtspSession \<times> rtspConn" where
  "onSetup E s c ctx =
     (if invalidPath (ctxPath ctx)
      then ((response StatusBadRequest, None, Some (errorString ''invalid path'')), s, c)
      else
        (let p = tl (ctxPath ctx)
         in if ctxTransport ctx = TransportTCP \<and> TransportTCP \<notin> protocols s
            then ((response StatusUnsupportedTransport, None, None), s, c)
            else if playDirection (sessionState s)
            then
              (let c = ensureNonce E c;
                   req = setupReq s c ctx p;
                   s = s\<lparr>effects := effects s @ [CallReaderAdd req]\<rparr>
               in (case readerAdd E req of
                     Inl e \<Rightarrow>
                       (case e of
                          pathErrAuth wrapped \<Rightarrow>
                            (let (res, er) = handleAuthError E c wrapped
                             in ((res, None, er), s, c))
                        | pathErrNoOnePublishing n \<Rightarrow>
                            ((response StatusNotFound, None, Some e), s, c)
                        | _ \<Rightarrow> ((response StatusBadRequest, None, Some e), s, c))
                   | Inr (pa, st) \<Rightarrow>
                       ((response StatusOK, Some st, None),
                        s\<lparr>path := Some pa, stream := Some st,
                          state := ServerSessionStatePrePlay\<rparr>, c)))
            else ((response StatusOK, None, None), s, c)))"

text \<open>
  \<open>onPlay\<close> reads \<open>s.path.name\<close> when the session is in \<open>PrePlay\<close>: with no path set
  this is a nil dereference, the result \<open>None\<close>.
\<close>

definition onPlay ::
  "rtspEnv \<Rightarrow> rtspSession \<Rightarrow> ((Response \<times> err option) \<times> rtspSession) option" where
  "onPlay E s =
     (if sessionState s = ServerSessionStatePrePlay
      then
        (case path s of
           None \<Rightarrow> None
         | Some pa \<Rightarrow>
             (let pathConf = safeConf E pa;
                  s = (if RunOnRead pathConf \<noteq> []
                       then s\<lparr>onReadCmd := Some (RunOnRead pathConf, RunOnReadRestart pathConf),
                              effects := effects s
                                @ [CmdNew (RunOnRead pathConf) (RunOnReadRestart pathConf)]\<rparr>
                       else s)
              in Some ((response StatusOK, None), s\<lparr>state := ServerSessionStatePlay\<rparr>)))
      else Some ((response StatusOK, None), s))"

text \<open>
  \<open>onRecord\<close> starts the publisher on \<open>s.path\<close>, then reads \<open>s.path.name\<close> (\<open>None\<close> when
  no path is set), installs one packet handler per announced format and sets the state.
\<close>

definition onRecord ::
  "rtspEnv \<Rightarrow> rtspSession \<Rightarrow> ((Response \<times> err option) \<times> rtspSession) option" where
  "onRecord E s =
     (let au = RTSPSession (uuid s);
          s = s\<lparr>effects := effects s
                 @ [CallPublisherStart (path s) au (announcedMedias s) False]\<rparr>
      in (case publisherStart E (path s) au (announcedMedias s) False of
            Inl e \<Rightarrow> Some ((response StatusBadRequest, Some e), s)
          | Inr st \<Rightarrow>
              (case path s of
                 None \<Rightarrow> None
               | Some pa \<Rightarrow>
                   Some ((response StatusOK, None),
                         s\<lparr>stream := Some st,
                           effects := effects s
                             @ concat (map (\<lambda>medi. map (\<lambda>forma.
                                         OnPacketRTP medi forma (getRTSPWriteFunc forma))
                                       (Formats medi)) (announcedMedias s)),
                           state := ServerSessionStateRecord\<rparr>))))"

definition onPause :: "rtspSession \<Rightarrow> (Response \<times> err option) \<times> rtspSession" where
  "onPause s =
     (let s =
        (case sessionState s of
           ServerSessionStatePlay \<Rightarrow>
             (let s = (if onReadCmd s \<noteq> None then s\<lparr>effects := effects s @ [CmdClose]\<rparr>
                       else s)
              in s\<lparr>state := ServerSessionStatePrePlay\<rparr>)
         | ServerSessionStateRecord \<Rightarrow>
             s\<lparr>effects := effects s @ [CallPublisherStop (path s) (RTSPSession (uuid s))],
               state := ServerSessionStatePreRecord\<rparr>
         | _ \<Rightarrow> s)
      in ((response StatusOK, None), s))"

definition onClose :: "rtspSession \<Rightarrow> rtspSession" where
  "onClose s =
     (let s = (if sessionState s = ServerSessionStatePlay \<and> onReadCmd s \<noteq> None
               then s\<lparr>onReadCmd := None, effects := effects s @ [CmdClose]\<rparr>
               else s);
          s = (if sessionState s = ServerSessionStatePrePlay
                  \<or> sessionState s = ServerSessionStatePlay
               then s\<lparr>effects := effects s
                      @ [CallReaderRemove (path s) (RTSPSession (uuid s))]\<rparr>
               else if sessionState s = ServerSessionStatePreRecord
                  \<or> sessionState s = ServerSessionStateRecord
               then s\<lparr>effects := effects s
                      @ [CallPublisherRemove (path s) (RTSPSession (uuid s))]\<rparr>
               else s)
      in s\<lparr>path := None, stream := None\<rparr>)"

section \<open>The path manager's reader admission\<close>

text \<open>
  Modelled from the spec: \<open>pathManager.readerAdd\<close> is not among the sources (the sessions
  reach it through an interface). The specification says that the PathManager
  authenticates, locates or creates the Path, forwards the request to the Path's event
  loop and returns the Path and its Stream, and that authentication evaluates the
  request's credentials for the path; a failed authentication is the error
  \<open>pathErrAuth\<close> the sessions handle. \<open>authenticate\<close> is the Auth module (\<open>None\<close> is
  \<open>ok\<close>), \<open>pathReaderAdd\<close> the Path's answer. What the manager does with a request that
  sets \<open>skipAuth\<close> the specification does not say: that case is the parameter
  \<open>readerAddSkippingAuth\<close>.
\<close>

record pathManager =
  authenticate :: "string \<Rightarrow> authCredentials \<Rightarrow> err option"
  pathReaderAdd :: "pathReaderAddReq \<Rightarrow> err + path \<times> stream"
  readerAddSkippingAuth :: "pathReaderAddReq \<Rightarrow> err + path \<times> stream"

definition pathManagerReaderAdd :: "pathManager \<Rightarrow> pathReaderAddReq \<Rightarrow> err + path \<times> stream" where
  "pathManagerReaderAdd pm req =
     (if skipAuth req then readerAddSkippingAuth pm req
      else
        (case authenticate pm (pathName req) (credentials req) of
           Some e \<Rightarrow> Inl (pathErrAuth e)
         | None \<Rightarrow> pathReaderAdd pm req))"

section \<open>The WebRTC connection (internal/core/webrtc_conn.go)\<close>

text \<open>Durations are in nanoseconds, as \<open>time.Duration\<close> is.\<close>

definition Second :: nat where "Second = 1000000000"
definition webrtcHandshakeDeadline :: nat where "webrtcHandshakeDeadline = 10 * Second"
definition webrtcWsWriteDeadline :: nat where "webrtcWsWriteDeadline = 2 * Second"
definition webrtcPayloadMaxSize :: nat where "webrtcPayloadMaxSize = 1188"

record RTPCodecCapability =
  MimeType :: string
  capClockRate :: nat

record TrackLocalStaticRTP =
  trackCodec :: RTPCodecCapability
  trackID :: string
  trackStreamID :: string

text \<open>
  The callback of a track, by what it does with a unit: encode its payload with the RTP
  encoder of a codec (payload type, maximum payload size), or forward the unit's own RTP
  packets.
\<close>

datatype callback = Encode codec nat nat | Forward

record webRTCTrack =
  trackMedia :: media
  trackFormat :: format
  webRTCTrak :: TrackLocalStaticRTP
  cb :: callback

record webRTCConn =
  connPathName :: string
  connID :: string

text \<open>
  What the connection calls and the sources do not contain: the path manager (an
  interface in the source), the error \<open>webrtc.NewTrackLocalStaticRTP\<close> may return, and
  \<open>handshake\<close>, the rest of \<open>runInner\<close> once the tracks exist (signalling, the candidate
  loop, streaming, which run on goroutines, channels and timers): the error it ends with
  and the calls it makes.
\<close>

record webrtcEnv =
  pmReaderAdd :: "pathReaderAddReq \<Rightarrow> err + path \<times> stream"
  newTrackError :: "RTPCodecCapability \<Rightarrow> string \<Rightarrow> string \<Rightarrow> err option"
  handshake :: "webRTCConn \<Rightarrow> path \<Rightarrow> stream \<Rightarrow> webRTCTrack list \<Rightarrow> err \<times> effect list"

definition NewTrackLocalStaticRTP ::
  "webrtcEnv \<Rightarrow> RTPCodecCapability \<Rightarrow> string \<Rightarrow> string \<Rightarrow> err + TrackLocalStaticRTP" where
  "NewTrackLocalStaticRTP E c i sid =
     (case newTrackError E c i sid of
        Some e \<Rightarrow> Inl e
      | None \<Rightarrow> Inr \<lparr>trackCodec = c, trackID = i, trackStreamID = sid\<rparr>)"

text \<open>
  gortsplib's \<open>Medias.FindFormat\<close>: the first media holding a format of the wanted
  type, with the first such format of that media.
\<close>

fun FindFormat :: "codec \<Rightarrow> media list \<Rightarrow> (media \<times> format) option" where
  "FindFormat k [] = None"
| "FindFormat k (m # ms) =
     (case find (\<lambda>f. codecOf f = k) (Formats m) of
        Some f \<Rightarrow> Some (m, f)
      | None \<Rightarrow> FindFormat k ms)"

definition uint32 :: "nat \<Rightarrow> nat" where
  "uint32 n = n mod 2 ^ 32"

definition gatherMedias :: "webRTCTrack list \<Rightarrow> media list" where
  "gatherMedias tracks = map trackMedia tracks"

definition createVideoTrack :: "webrtcEnv \<Rightarrow> media list \<Rightarrow> err + webRTCTrack option" where
  "createVideoTrack E ms =
     (case FindFormat AV1 ms of
        Some (av1Media, av1Format) \<Rightarrow>
          (case NewTrackLocalStaticRTP E \<lparr>MimeType = ''video/AV1'', capClockRate = 90000\<rparr>
                  ''av1'' ''rtspss'' of
             Inl e \<Rightarrow> Inl e
           | Inr t \<Rightarrow>
               Inr (Some \<lparr>trackMedia = av1Media, trackFormat = av1Format, webRTCTrak = t,
                          cb = Encode AV1 96 webrtcPayloadMaxSize\<rparr>))
      | None \<Rightarrow>
     (case FindFormat VP9 ms of
        Some (vp9Media, vp9Format) \<Rightarrow>
          (case NewTrackLocalStaticRTP E
                  \<lparr>MimeType = ''video/VP9'', capClockRate = uint32 (ClockRate vp9Format)\<rparr>
                  ''vp9'' ''rtspss'' of
             Inl e \<Rightarrow> Inl e
           | Inr t \<Rightarrow>
               Inr (Some \<lparr>trackMedia = vp9Media, trackFormat = vp9Format, webRTCTrak = t,
                          cb = Encode VP9 96 webrtcPayloadMaxSize\<rparr>))
      | None \<Rightarrow>
     (case FindFormat VP8 ms of
        Some (vp8Media, vp8Format) \<Rightarrow>
          (case NewTrackLocalStaticRTP E
                  \<lparr>MimeType = ''video/VP8'', capClockRate = uint32 (ClockRate vp8Format)\<rparr>
                  ''vp8'' ''rtspss'' of
             Inl e \<Rightarrow> Inl e
           | Inr t \<Rightarrow>
               Inr (Some \<lparr>trackMedia = vp8Media, trackFormat = vp8Format, webRTCTrak = t,
                          cb = Encode VP8 96 webrtcPayloadMaxSize\<rparr>))
      | None \<Rightarrow>
     (case FindFormat H264 ms of
        Some (h264Media, h264Format) \<Rightarrow>
          (case NewTrackLocalStaticRTP E
                  \<lparr>MimeType = ''video/H264'', capClockRate = uint32 (ClockRate h264Format)\<rparr>
                  ''h264'' ''rtspss'' of
             Inl e \<Rightarrow> Inl e
           | Inr t \<Rightarrow>
               Inr (Some \<lparr>trackMedia = h264Media, trackFormat = h264Format, webRTCTrak = t,
                          cb = Encode H264 96 webrtcPayloadMaxSize\<rparr>))
      | None \<Rightarrow> Inr None))))"

definition createAudioTrack :: "webrtcEnv \<Rightarrow> media list \<Rightarrow> err + webRTCTrack option" where
  "createAudioTrack E ms =
     (case FindFormat Opus ms of
        Some (opusMedia, opusFormat) \<Rightarrow>
          (case NewTrackLocalStaticRTP E
                  \<lparr>MimeType = ''audio/opus'', capClockRate = uint32 (ClockRate opusFormat)\<rparr>
                  ''opus'' ''rtspss'' of
             Inl e \<Rightarrow> Inl e
           | Inr t \<Rightarrow>
               Inr (Some \<lparr>trackMedia = opusMedia, trackFormat = opusFormat, webRTCTrak = t,
                          cb = Forward\<rparr>))
      | None \<Rightarrow>
     (case FindFormat G722 ms of
        Some (g722Media, g722Format) \<Rightarrow>
          (case NewTrackLocalStaticRTP E
                  \<lparr>MimeType = ''audio/G722'', capClockRate = uint32 (ClockRate g722Format)\<rparr>
                  ''g722'' ''rtspss'' of
             Inl e \<Rightarrow> Inl e
           | Inr t \<Rightarrow>
               Inr (Some \<lparr>trackMedia = g722Media, trackFormat = g722Format, webRTCTrak = t,
                          cb = Forward\<rparr>))
      | None \<Rightarrow>
     (case FindFormat G711 ms of
        Some (g711Media, g711Format) \<Rightarrow>
          (let mtyp = (if MULaw g711Format then ''audio/PCMU'' else ''audio/PCMA'')
           in (case NewTrackLocalStaticRTP E
                       \<lparr>MimeType = mtyp, capClockRate = uint32 (ClockRate g711Format)\<rparr>
                       ''g711'' ''rtspss'' of
                 Inl e \<Rightarrow> Inl e
               | Inr t \<Rightarrow>
                   Inr (Some \<lparr>trackMedia = g711Media, trackFormat = g711Format, webRTCTrak = t,
                              cb = Forward\<rparr>)))
      | None \<Rightarrow> Inr None)))"

definition unsupportedCodec :: err where
  "unsupportedCodec = errorString
     (''the stream doesn'' @ [CHR 0x27] @ ''t contain any supported codec, '' @
      ''which are currently H264, VP8, VP9, G711, G722, Opus'')"

text \<open>The request literal of \<open>runInner\<close>.\<close>

definition runInnerReq :: "webRTCConn \<Rightarrow> pathReaderAddReq" where
  "runInnerReq c =
     \<lparr>author = WebRTCConn (connID c),
      pathName = connPathName c,
      skipAuth = True,
      credentials = noCredentials\<rparr>"

text \<open>
  \<open>runInner\<close> up to the tracks (\<open>var tracks\<close> to the \<open>tracks == nil\<close> test): the error
  to return, or the non-empty list of tracks.
\<close>

definition runInnerTracks :: "webrtcEnv \<Rightarrow> media list \<Rightarrow> err + webRTCTrack list" where
  "runInnerTracks E ms =
     (case createVideoTrack E ms of
        Inl e \<Rightarrow> Inl e
      | Inr videoTrack \<Rightarrow>
          (let tracks = (case videoTrack of None \<Rightarrow> [] | Some t \<Rightarrow> [t])
           in (case createAudioTrack E ms of
                 Inl e \<Rightarrow> Inl e
               | Inr audioTrack \<Rightarrow>
                   (let tracks = (case audioTrack of None \<Rightarrow> tracks | Some t \<Rightarrow> tracks @ [t])
                    in if tracks = [] then Inl unsupportedCodec else Inr tracks))))"

text \<open>
  \<open>runInner\<close>: the error it returns and the calls made, the deferred \<open>readerRemove\<close>
  last.
\<close>

definition runInner :: "webrtcEnv \<Rightarrow> webRTCConn \<Rightarrow> err \<times> effect list" where
  "runInner E c =
     (let req = runInnerReq c
      in (case pmReaderAdd E req of
            Inl e \<Rightarrow> (e, [CallReaderAdd req])
          | Inr (pa, st) \<Rightarrow>
              (let (e, effs) =
                     (case runInnerTracks E (medias st) of
                        Inl e \<Rightarrow> (e, [])
                      | Inr tracks \<Rightarrow> handshake E c pa st tracks)
               in (e, [CallReaderAdd req] @ effs
                        @ [CallReaderRemove (Some pa) (WebRTCConn (connID c))]))))"

subsection \<open>A small instance\<close>

text \<open>
  An instance of the parameters for evaluating the handlers: values and JSON texts are
  natural numbers, a configuration has a log level, the paths and a field kept out of
  JSON, a path has a source and a field kept out of JSON, and validation rejects a log
  level above 4. A JSON text decodes when it is below 100. The paths map is encoded by which of the names \<open>cam\<close> (1) and \<open>door\<close>
  (2) it holds. Keys are compared up to the case of ASCII letters.
\<close>

definition asciiLower :: "char \<Rightarrow> char" where
  "asciiLower c =
     (case map_of (zip ''ABCDEFGHIJKLMNOPQRSTUVWXYZ'' ''abcdefghijklmnopqrstuvwxyz'') c of
        Some l \<Rightarrow> l
      | None \<Rightarrow> c)"

definition demoDeps :: "(nat, nat) deps" where
  "demoDeps =
     \<lparr>confModel =
        [\<lparr>fname = ''LogLevel'', ftag = ''logLevel'', fkind = NonPtr\<rparr>,
         \<lparr>fname = ''Paths'', ftag = ''paths'', fkind = NonPtr\<rparr>,
         \<lparr>fname = ''Internal'', ftag = ''-'', fkind = NonPtr\<rparr>],
      pathModel =
        [\<lparr>fname = ''Source'', ftag = ''source'', fkind = NonPtr\<rparr>,
         \<lparr>fname = ''Regexp'', ftag = ''-'', fkind = Ptr\<rparr>],
      pathZero = (\<lambda>_. 0),
      unmarshal = (\<lambda>f j. if j < 100 then Some j else None),
      unmarshalInto = (\<lambda>f old j. if j < 100 then Some j else None),
      equalFold = (\<lambda>a b. map asciiLower a = map asciiLower b),
      marshal = (\<lambda>f v. JVal v),
      marshalPaths =
        (\<lambda>m. JVal ((if m ''cam'' = None then 0 else 1) + (if m ''door'' = None then 0 else 2))),
      Check = (\<lambda>c. if 4 < globals c ''LogLevel'' then Some ''invalid log level'' else None)\<rparr>"

definition demoConf :: "nat Conf" where
  "demoConf = \<lparr>globals = (\<lambda>_. 1), Paths = [''cam'' \<mapsto> (\<lambda>_. 2)]\<rparr>"

definition demoApi :: "nat api" where
  "demoApi = \<lparr>conf = demoConf, reloads = []\<rparr>"

text \<open>
  Instances for the sessions. The path manager admits readers and publishers on
  \<open>cam\<close>, asks for authentication on \<open>secret\<close>, reports a failure on \<open>broken\<close> and has
  no one publishing elsewhere; the stream of \<open>cam\<close> has a video media offering H264 and
  VP8 and an audio media offering G711, the stream of \<open>legacy\<close> only H265. The
  handshake of the WebRTC instance ends at once, naming the tracks it was given. The
  path manager of the specification's shape rejects the credentials of \<open>secret\<close>.
\<close>

definition demoStream :: stream where
  "demoStream =
     \<lparr>medias =
        [\<lparr>control = ''0'',
          Formats = [\<lparr>codecOf = H264, PayloadTyp = 96, ClockRate = 90000, MULaw = False\<rparr>,
                     \<lparr>codecOf = VP8, PayloadTyp = 97, ClockRate = 90000, MULaw = False\<rparr>]\<rparr>,
         \<lparr>control = ''1'',
          Formats = [\<lparr>codecOf = G711, PayloadTyp = 0, ClockRate = 8000, MULaw = True\<rparr>]\<rparr>]\<rparr>"

definition legacyStream :: stream where
  "legacyStream =
     \<lparr>medias =
        [\<lparr>control = ''0'',
          Formats = [\<lparr>codecOf = H265, PayloadTyp = 96, ClockRate = 90000, MULaw = False\<rparr>]\<rparr>]\<rparr>"

definition demoReaderAdd :: "pathReaderAddReq \<Rightarrow> err + path \<times> stream" where
  "demoReaderAdd req =
     (if pathName req = ''cam'' then Inr (''cam'', demoStream)
      else if pathName req = ''legacy'' then Inr (''legacy'', legacyStream)
      else if pathName req = ''secret'' then Inl (pathErrAuth (errorString ''wrong credentials''))
      else if pathName req = ''broken'' then Inl (errorString ''terminated'')
      else Inl (pathErrNoOnePublishing (pathName req)))"

definition demoRtspEnv :: rtspEnv where
  "demoRtspEnv =
     \<lparr>publisherAdd = (\<lambda>req. if pubPathName req = ''cam'' then Inr ''cam''
                             else Inl (errorString ''already in use'')),
      readerAdd = demoReaderAdd,
      publisherStart = (\<lambda>p a ms g. Inr \<lparr>medias = ms\<rparr>),
      safeConf = (\<lambda>p. \<lparr>RunOnRead = [], RunOnReadRestart = False\<rparr>),
      handleAuthError = (\<lambda>c e. (response 401, Some e)),
      GenerateNonce = ''abcd''\<rparr>"

definition demoSession :: "ServerSessionState \<Rightarrow> rtspSession" where
  "demoSession st =
     \<lparr>isTLS = False, protocols = {TransportUDP, TransportTCP}, sessionState = st,
      announcedMedias = [], uuid = ''s1'', path = Some ''cam'', stream = None, state = st,
      onReadCmd = None, effects = []\<rparr>"

definition demoConn :: rtspConn where
  "demoConn = \<lparr>authNonce = [], connIP = ''10.0.0.7'', connUUID = ''c1''\<rparr>"

definition demoCtx :: "string \<Rightarrow> ServerHandlerCtx" where
  "demoCtx p =
     \<lparr>ctxPath = p, ctxQuery = [], ctxTransport = TransportTCP,
      ctxRequest =
        \<lparr>Method = ''SETUP'',
         reqURL = \<lparr>Scheme = ''rtsp'', Host = ''host:8554'', Path = p, RawQuery = []\<rparr>\<rparr>\<rparr>"

definition demoWebrtcEnv :: webrtcEnv where
  "demoWebrtcEnv =
     \<lparr>pmReaderAdd = demoReaderAdd,
      newTrackError = (\<lambda>c i sid. None),
      handshake =
        (\<lambda>c pa st tracks.
           (errorString (''peer connection closed, tracks:''
              @ concat (map (\<lambda>t. '' '' @ trackID (webRTCTrak t)) tracks)), []))\<rparr>"

definition demoPathManager :: pathManager where
  "demoPathManager =
     \<lparr>authenticate = (\<lambda>p cr. if p = ''secret'' then Some (errorString ''wrong credentials'')
                              else None),
      pathReaderAdd = demoReaderAdd,
      readerAddSkippingAuth = demoReaderAdd\<rparr>"

definition demoWebRTCConn :: "string \<Rightarrow> webRTCConn" where
  "demoWebRTCConn p = \<lparr>connPathName = p, connID = ''w1''\<rparr>"

subsection \<open>The selection of a format, as the specification words it\<close>

text \<open>
  The first codec of a priority list that some format of some media of the stream has;
  \<open>None\<close> when the stream has no format of any codec of the list.
\<close>

fun firstOf :: "codec list \<Rightarrow> media list \<Rightarrow> codec option" where
  "firstOf [] ms = None"
| "firstOf (k # ks) ms =
     (if list_ex (\<lambda>m. list_ex (\<lambda>f. codecOf f = k) (Formats m)) ms then Some k
      else firstOf ks ms)"

definition asList :: "'a option \<Rightarrow> 'a list" where
  "asList x = (case x of None \<Rightarrow> [] | Some t \<Rightarrow> [t])"

definition videoCodecs :: "codec list" where "videoCodecs = [AV1, VP9, VP8, H264]"
definition audioCodecs :: "codec list" where "audioCodecs = [Opus, G722, G711]"

text \<open>
  What \<open>createVideoTrack\<close> or \<open>createAudioTrack\<close> returns when the codec \<open>k\<close> is the one
  to select: a track on the first format of codec \<open>k\<close> and its media, or else an error
  that \<open>webrtc.NewTrackLocalStaticRTP\<close> returned; never no track.
\<close>

abbreviation selected :: "webrtcEnv \<Rightarrow> codec \<Rightarrow> media list \<Rightarrow> err + webRTCTrack option \<Rightarrow> bool" where
  "selected E k ms r \<equiv>
     (case r of
        Inr (Some t) \<Rightarrow> codecOf (trackFormat t) = k \<and>
                        FindFormat k ms = Some (trackMedia t, trackFormat t)
      | Inr None \<Rightarrow> False
      | Inl e \<Rightarrow> \<exists>c i sid. newTrackError E c i sid = Some e)"

section \<open>Properties of the configuration endpoints\<close>

lemma status_neq [simp]: "StatusBadRequest \<noteq> StatusOK" "StatusOK \<noteq> StatusBadRequest"
  by (simp_all add: StatusOK_def StatusBadRequest_def)

lemma demo_simps:
  "confModel demoDeps = [\<lparr>fname = ''LogLevel'', ftag = ''logLevel'', fkind = NonPtr\<rparr>,
         \<lparr>fname = ''Paths'', ftag = ''paths'', fkind = NonPtr\<rparr>,
         \<lparr>fname = ''Internal'', ftag = ''-'', fkind = NonPtr\<rparr>]"
  "pathModel demoDeps = [\<lparr>fname = ''Source'', ftag = ''source'', fkind = NonPtr\<rparr>,
         \<lparr>fname = ''Regexp'', ftag = ''-'', fkind = Ptr\<rparr>]"
  "pathZero demoDeps = (\<lambda>_. 0)"
  "unmarshal demoDeps = (\<lambda>f j. if j < 100 then Some j else None)"
  "unmarshalInto demoDeps = (\<lambda>f old j. if j < 100 then Some j else None)"
  "equalFold demoDeps = (\<lambda>a b. map asciiLower a = map asciiLower b)"
  "marshal demoDeps = (\<lambda>f v. JVal v)"
  "Check demoDeps = (\<lambda>c. if 4 < globals c ''LogLevel'' then Some ''invalid log level'' else None)"
  "conf demoApi = demoConf" "reloads demoApi = []"
  "globals demoConf = (\<lambda>_. 1)" "Paths demoConf = [''cam'' \<mapsto> (\<lambda>_. 2)]"
  by (simp_all add: demoDeps_def demoApi_def demoConf_def)

lemmas handler_defs = onConfigSet_def onConfigGet_def onConfigPathsAdd_def onConfigPathsEdit_def
  onConfigPathsDelete_def loadConfData_def loadConfPathData_def loadData_def
  generateStructWithOptionalFields_def optional_def decodeMember_def fieldFor_def pointer_def
  setPointer_def decodeValue_def asciiLower_def encodeConf_def Clone_def FieldByName_def
  paramName_def Let_def

lemma onConfigSet_cases:
  "onConfigSet W b a = (r, a') \<Longrightarrow>
     (r = Status StatusOK \<and> Check W (conf a') = None \<and> reloads a' = reloads a @ [conf a'])
     \<or> (r \<noteq> Status StatusOK \<and> a' = a)"
  by (auto simp: onConfigSet_def commit_def Let_def split: option.splits)

lemma onConfigPathsAdd_cases:
  "onConfigPathsAdd W n b a = (r, a') \<Longrightarrow>
     (r = Status StatusOK \<and> Check W (conf a') = None \<and> reloads a' = reloads a @ [conf a'])
     \<or> (r \<noteq> Status StatusOK \<and> a' = a)"
  by (auto simp: onConfigPathsAdd_def commit_def Let_def split: option.splits if_splits)

lemma onConfigPathsEdit_cases:
  "onConfigPathsEdit W n b a = (r, a') \<Longrightarrow>
     (r = Status StatusOK \<and> Check W (conf a') = None \<and> reloads a' = reloads a @ [conf a'])
     \<or> (r \<noteq> Status StatusOK \<and> a' = a)"
  by (auto simp: onConfigPathsEdit_def commit_def Let_def split: option.splits if_splits)

lemma onConfigPathsDelete_cases:
  "onConfigPathsDelete W n a = (r, a') \<Longrightarrow>
     (r = Status StatusOK \<and> Check W (conf a') = None \<and> reloads a' = reloads a @ [conf a'])
     \<or> (r \<noteq> Status StatusOK \<and> a' = a)"
  by (auto simp: onConfigPathsDelete_def commit_def Let_def split: option.splits if_splits)

lemma route_cases:
  "route W rq a = (r, a') \<Longrightarrow>
     (r = Status StatusOK \<and> Check W (conf a') = None \<and> reloads a' = reloads a @ [conf a'])
     \<or> (r \<noteq> Status StatusOK \<and> a' = a)"
  by (cases rq)
     (simp_all add: onConfigSet_cases onConfigPathsAdd_cases onConfigPathsEdit_cases
        onConfigPathsDelete_cases)

text \<open>
  The stored configuration stays valid: a handler stores only what \<open>Check\<close> accepted.
\<close>

lemma route_preserves_valid:
  "route W rq a = (r, a') \<Longrightarrow> Check W (conf a) = None \<Longrightarrow> Check W (conf a') = None"
  using route_cases [of W rq a r a'] by auto

lemma loadData_Check [simp]: "loadData (W\<lparr>Check := k\<rparr>) m b = loadData W m b"
proof -
  have "decodeMember (W\<lparr>Check := k\<rparr>) x inp = decodeMember W x inp" for x inp
    by (simp add: decodeMember_def fieldFor_def decodeValue_def
        split: option.splits json.splits)
  then have "Decode (W\<lparr>Check := k\<rparr>) ms inp = Decode W ms inp" for ms inp
    by (induction ms arbitrary: inp) (simp_all split: option.splits)
  then show ?thesis by (simp add: loadData_def split: body.splits)
qed

text \<open>
  Validation is the last thing a handler does before it commits: when the handler run
  with a validation that accepts everything commits \<open>a0\<close>, the handler run with \<open>Check\<close>
  commits the same \<open>a0\<close> if \<open>Check\<close> accepts its configuration and answers 400 otherwise.
\<close>

lemma route_accepting:
  "route (W\<lparr>Check := \<lambda>_. None\<rparr>) rq a = (Status StatusOK, a0) \<Longrightarrow>
   route W rq a =
     (if Check W (conf a0) = None then (Status StatusOK, a0) else (Status StatusBadRequest, a))"
  by (cases rq)
     (auto simp: onConfigSet_def onConfigPathsAdd_def onConfigPathsEdit_def
        onConfigPathsDelete_def loadConfData_def loadConfPathData_def commit_def Let_def
        split: option.splits if_splits)

text \<open>
  C1. Each of the four mutating endpoints validates the configuration it has built on
  the clone before committing it. For a request \<open>rq\<close> answered \<open>r\<close> in state \<open>a\<close>:
  \<^item> unless the answer is 200, the state (stored configuration and configurations
    propagated) is the state before the request;
  \<^item> when the answer is 200, the stored configuration passed \<open>Check\<close> and is the one
    propagated to the parent;
  \<^item> writing \<open>a0\<close> for what the handler would commit were validation to accept
    everything (so \<open>conf a0\<close> is the configuration built on the clone): if \<open>Check\<close>
    rejects \<open>conf a0\<close> the answer is 400 and the state is unchanged, and if it accepts,
    the answer is 200 and \<open>a0\<close> is committed.
\<close>

theorem mutating_endpoints_validate_before_commit:
  "route W rq a = (r, a') \<Longrightarrow>
     (r = Status StatusOK \<or> a' = a) \<and>
     (r = Status StatusOK \<longrightarrow>
        Check W (conf a') = None \<and> reloads a' = reloads a @ [conf a']) \<and>
     (\<forall>a0. route (W\<lparr>Check := \<lambda>_. None\<rparr>) rq a = (Status StatusOK, a0) \<longrightarrow>
        (Check W (conf a0) \<noteq> None \<longrightarrow> r = Status StatusBadRequest \<and> a' = a) \<and>
        (Check W (conf a0) = None \<longrightarrow> r = Status StatusOK \<and> a' = a0))"
  using route_cases [of W rq a r a'] route_accepting [of W rq a]
  by auto

theorem mutating_endpoints_validate_before_commit_witness:
  "route demoDeps (ConfigSet (Object [(''logLevel'', JVal 9)])) demoApi
     = (Status StatusBadRequest, demoApi) \<and>
   route demoDeps (ConfigSet (Object [(''logLevel'', JVal 3)])) demoApi
     = (Status StatusOK, commit (demoConf\<lparr>globals := (\<lambda>_. 1)(''LogLevel'' := 3)\<rparr>) demoApi)"
  using mutating_endpoints_validate_before_commit
      [of demoDeps "ConfigSet (Object [(''logLevel'', JVal 9)])" demoApi
          "fst (route demoDeps (ConfigSet (Object [(''logLevel'', JVal 9)])) demoApi)"
          "snd (route demoDeps (ConfigSet (Object [(''logLevel'', JVal 9)])) demoApi)"]
    mutating_endpoints_validate_before_commit
      [of demoDeps "ConfigSet (Object [(''logLevel'', JVal 3)])" demoApi
          "fst (route demoDeps (ConfigSet (Object [(''logLevel'', JVal 3)])) demoApi)"
          "snd (route demoDeps (ConfigSet (Object [(''logLevel'', JVal 3)])) demoApi)"]
  by (simp add: handler_defs demo_simps)

text \<open>
  C6. Adding a path whose stripped name is already in the paths map is answered 400
  and commits nothing; editing a path whose stripped name is not in the paths map is
  answered 400 and commits nothing. The name parameter is \<open>/\<close> followed by \<open>n\<close>.
\<close>

theorem paths_add_existing_edit_missing:
  "(Paths (conf a) n \<noteq> None \<longrightarrow>
      onConfigPathsAdd W (CHR ''/'' # n) b a = (Status StatusBadRequest, a)) \<and>
   (Paths (conf a) n = None \<longrightarrow>
      onConfigPathsEdit W (CHR ''/'' # n) b a = (Status StatusBadRequest, a))"
  by (auto simp: onConfigPathsAdd_def onConfigPathsEdit_def paramName_def Clone_def Let_def
      split: option.splits)

theorem paths_add_existing_edit_missing_witness:
  "Paths (conf demoApi) ''cam'' \<noteq> None \<and>
   onConfigPathsAdd demoDeps ''/cam'' (Object []) demoApi = (Status StatusBadRequest, demoApi) \<and>
   Paths (conf demoApi) ''door'' = None \<and>
   onConfigPathsEdit demoDeps ''/door'' (Object []) demoApi = (Status StatusBadRequest, demoApi)"
  using paths_add_existing_edit_missing [of demoApi "''cam''" demoDeps "Object []"]
    paths_add_existing_edit_missing [of demoApi "''door''" demoDeps "Object []"]
  by (simp add: demo_simps)

text \<open>
  C5. When the stored configuration is valid (the handlers keep it so, see
  \<open>route_preserves_valid\<close>) and adding the path \<open>n\<close> succeeds, then \<open>n\<close> was not in the
  paths map, and removing \<open>n\<close> afterwards succeeds and leaves the stored configuration
  equal to the one stored before the add.
\<close>

theorem paths_add_then_remove:
  assumes valid: "Check W (conf a) = None"
    and added: "onConfigPathsAdd W (CHR ''/'' # n) b a = (Status StatusOK, a1)"
  shows "Paths (conf a) n = None \<and>
    (\<exists>a2. onConfigPathsDelete W (CHR ''/'' # n) a1 = (Status StatusOK, a2) \<and> conf a2 = conf a)"
proof -
  from added have n: "paramName (CHR ''/'' # n) = Some n"
    by (auto simp: onConfigPathsAdd_def paramName_def split: option.splits if_splits)
  from added n have absent: "Paths (conf a) n = None"
    by (auto simp: onConfigPathsAdd_def Clone_def Let_def split: option.splits if_splits)
  from added n absent obtain p where
    a1: "conf a1 = (conf a)\<lparr>Paths := (Paths (conf a))(n \<mapsto> p)\<rparr>"
    by (auto simp: onConfigPathsAdd_def Clone_def commit_def Let_def
        split: option.splits if_splits)
  have restored: "(conf a1)\<lparr>Paths := (Paths (conf a1))(n := None)\<rparr> = conf a"
    using absent by (simp add: a1 fun_upd_idem)
  show ?thesis
    using n valid absent a1 restored
    by (simp add: onConfigPathsDelete_def Clone_def commit_def Let_def)
qed

theorem paths_add_then_remove_witness:
  "Check demoDeps (conf demoApi) = None \<and>
   onConfigPathsAdd demoDeps ''/door'' (Object [(''source'', JVal 5)]) demoApi =
     (Status StatusOK,
      commit (demoConf\<lparr>Paths := [''cam'' \<mapsto> (\<lambda>_. 2), ''door'' \<mapsto> (\<lambda>_. 0)(''Source'' := 5)]\<rparr>)
        demoApi) \<and>
   (\<exists>a2. onConfigPathsDelete demoDeps ''/door''
            (commit (demoConf\<lparr>Paths := [''cam'' \<mapsto> (\<lambda>_. 2), ''door'' \<mapsto> (\<lambda>_. 0)(''Source'' := 5)]\<rparr>)
               demoApi) = (Status StatusOK, a2) \<and> conf a2 = conf demoApi)"
proof -
  have v: "Check demoDeps (conf demoApi) = None" by (simp add: demo_simps)
  have a: "onConfigPathsAdd demoDeps (CHR ''/'' # ''door'') (Object [(''source'', JVal 5)]) demoApi =
     (Status StatusOK,
      commit (demoConf\<lparr>Paths := [''cam'' \<mapsto> (\<lambda>_. 2), ''door'' \<mapsto> (\<lambda>_. 0)(''Source'' := 5)]\<rparr>)
        demoApi)"
    by (simp add: handler_defs demo_simps)
  from paths_add_then_remove [OF v a] v a show ?thesis by simp
qed

lemma fieldFor_mem: "fieldFor W fs k = Some f \<Longrightarrow> f \<in> set fs"
  by (auto simp: fieldFor_def find_Some_iff split: option.splits)

lemma fst_setPointer [simp]: "map fst (setPointer f p inp) = map fst inp"
  by (induction inp) (auto simp: setPointer_def)

lemma pointer_setPointer_same:
  "f \<in> fst ` set inp \<Longrightarrow> pointer (setPointer f p inp) f = p"
  by (induction inp) (auto simp: setPointer_def pointer_def)

lemma pointer_setPointer_other:
  "g \<noteq> f \<Longrightarrow> pointer (setPointer f p inp) g = pointer inp g"
  by (induction inp) (auto simp: setPointer_def pointer_def)

lemma pointer_entry:
  "distinct (map fst inp) \<Longrightarrow> (f, p) \<in> set inp \<Longrightarrow> pointer inp f = p"
  by (simp add: pointer_def)

lemma decodeMember_fields:
  "decodeMember W m inp = Some inp' \<Longrightarrow> map fst inp' = map fst inp"
  by (auto simp: decodeMember_def split: option.splits json.splits)

lemma Decode_fields:
  "Decode W ms inp = Some inp' \<Longrightarrow> map fst inp' = map fst inp"
proof (induction ms arbitrary: inp)
  case Nil
  then show ?case by simp
next
  case (Cons m ms)
  then obtain inp1 where 1: "decodeMember W m inp = Some inp1" and 2: "Decode W ms inp1 = Some inp'"
    by (auto split: option.splits)
  from Cons.IH [OF 2] decodeMember_fields [OF 1] show ?case by simp
qed

lemma decodeMember_step:
  assumes "decodeMember W m inp = Some inp1" and "f \<in> set (map fst inp)"
  shows "finalPointer W f (valuesFor W (map fst inp) (m # ms) f) (pointer inp f)
       = finalPointer W f (valuesFor W (map fst inp) ms f) (pointer inp1 f)"
proof (cases "fieldFor W (map fst inp) (fst m)")
  case None
  with assms show ?thesis by (simp add: decodeMember_def valuesFor_def)
next
  case (Some g)
  show ?thesis
  proof (cases "g = f")
    case False
    with Some assms(1) have "pointer inp1 f = pointer inp f"
      by (auto simp: decodeMember_def pointer_setPointer_other split: json.splits option.splits)
    with Some False show ?thesis by (simp add: valuesFor_def)
  next
    case True
    have same: "pointer (setPointer f p inp) f = p" for p
      using assms(2) by (intro pointer_setPointer_same) simp
    show ?thesis
    proof (cases "snd m")
      case JNull
      with Some True assms(1) have "inp1 = setPointer f None inp"
        by (simp add: decodeMember_def)
      with Some True JNull show ?thesis
        by (simp add: valuesFor_def same)
    next
      case (JVal j)
      with Some True assms(1) obtain v where
        v: "decodeValue W f (pointer inp f) j = Some v" and "inp1 = setPointer f (Some v) inp"
        by (auto simp: decodeMember_def split: option.splits)
      with Some True JVal show ?thesis
        by (simp add: valuesFor_def same)
    qed
  qed
qed

lemma Decode_pointers:
  "Decode W ms inp = Some inp' \<Longrightarrow> f \<in> set (map fst inp) \<Longrightarrow>
   finalPointer W f (valuesFor W (map fst inp) ms f) (pointer inp f) = Some (pointer inp' f)"
proof (induction ms arbitrary: inp)
  case Nil
  then show ?case by (simp add: valuesFor_def)
next
  case (Cons m ms)
  then obtain inp1 where 1: "decodeMember W m inp = Some inp1" and 2: "Decode W ms inp1 = Some inp'"
    by (auto split: option.splits)
  from decodeMember_fields [OF 1] have fs: "map fst inp1 = map fst inp" .
  from Cons.IH [OF 2] Cons.prems(2) fs
  have "finalPointer W f (valuesFor W (map fst inp) ms f) (pointer inp1 f) = Some (pointer inp' f)"
    by simp
  with decodeMember_step [OF 1 Cons.prems(2), of ms] show ?case by simp
qed

lemma decodeMember_total:
  assumes "f \<in> set (map fst inp) \<longrightarrow> 
     finalPointer W f (valuesFor W (map fst inp) (m # ms) f) (pointer inp f) \<noteq> None"
    and "fieldFor W (map fst inp) (fst m) = Some f"
  shows "decodeMember W m inp \<noteq> None"
  using assms fieldFor_mem [OF assms(2)]
  by (auto simp: decodeMember_def valuesFor_def split: json.splits option.splits)

lemma Decode_total:
  "(\<forall>f \<in> set (map fst inp).
      finalPointer W f (valuesFor W (map fst inp) ms f) (pointer inp f) \<noteq> None) \<Longrightarrow>
   \<exists>inp'. Decode W ms inp = Some inp'"
proof (induction ms arbitrary: inp)
  case Nil
  then show ?case by simp
next
  case (Cons m ms)
  have "decodeMember W m inp \<noteq> None"
  proof (cases "fieldFor W (map fst inp) (fst m)")
    case None
    then show ?thesis by (simp add: decodeMember_def)
  next
    case (Some f)
    with Cons.prems show ?thesis using decodeMember_total [of f inp W m ms] by blast
  qed
  then obtain inp1 where 1: "decodeMember W m inp = Some inp1" by auto
  from decodeMember_fields [OF 1] have fs: "map fst inp1 = map fst inp" .
  have "\<forall>f \<in> set (map fst inp1).
      finalPointer W f (valuesFor W (map fst inp1) ms f) (pointer inp1 f) \<noteq> None"
    using Cons.prems decodeMember_step [OF 1, of _ ms] fs by (metis)
  from Cons.IH [OF this] 1 show ?case by simp
qed

lemma fillStruct_frame:
  "fillStruct T dest inp = Some g \<Longrightarrow> n \<notin> fname ` fst ` set inp \<Longrightarrow> g n = dest n"
  by (induction T dest inp rule: fillStruct.induct) (auto split: option.splits if_splits)

lemma fillStruct_field:
  "fillStruct T dest inp = Some g \<Longrightarrow> distinct (map (\<lambda>x. fname (fst x)) inp) \<Longrightarrow>
   (f, p) \<in> set inp \<Longrightarrow>
   g (fname f) = (case p of Some v \<Rightarrow> v | None \<Rightarrow> dest (fname f))"
proof (induction T dest inp rule: fillStruct.induct)
  case (1 T dest)
  then show ?case by simp
next
  case (2 T dest sf rest)
  show ?case
  proof (cases "(f, p) = (sf, None)")
    case True
    with 2 have "fname sf \<notin> fname ` fst ` set rest" by (auto simp: image_iff)
    with 2 True show ?thesis using fillStruct_frame [of T dest rest g "fname sf"] by simp
  next
    case False
    with 2(4) have "(f, p) \<in> set rest" by auto
    moreover from 2(2) have "fillStruct T dest rest = Some g" by simp
    moreover from 2(3) have "distinct (map (\<lambda>x. fname (fst x)) rest)" by simp
    ultimately show ?thesis using 2(1) by blast
  qed
next
  case (3 T dest sf v rest)
  from 3(2) obtain f' where f': "FieldByName T (fname sf) = Some f'" "fkind f' \<noteq> Ptr"
    and g: "fillStruct T (dest(fname sf := v)) rest = Some g"
    by (auto split: option.splits if_splits)
  show ?case
  proof (cases "(f, p) = (sf, Some v)")
    case True
    with 3 have "fname sf \<notin> fname ` fst ` set rest" by (auto simp: image_iff)
    with g True show ?thesis
      using fillStruct_frame [of T "dest(fname sf := v)" rest g "fname sf"] by simp
  next
    case False
    with 3(4) have mem: "(f, p) \<in> set rest" by auto
    with 3(3) have ne: "fname f \<noteq> fname sf" by (auto simp: image_iff)
    from 3(1) [OF f'(1) f'(2) g] 3(3) mem ne show ?thesis
      by (simp split: option.splits)
  qed
qed

lemma finalPointer_null:
  "vs = [] \<or> last vs = JNull \<Longrightarrow> finalPointer W f vs None = Some p' \<Longrightarrow> p' = None"
proof (induction vs arbitrary: p' rule: rev_induct)
  case Nil
  then show ?case by simp
next
  case (snoc v vs)
  have app: "finalPointer W f (xs @ [JNull]) p = (case finalPointer W f xs p of None \<Rightarrow> None | Some q \<Rightarrow> Some None)"
    for xs p
    by (induction W f xs p rule: finalPointer.induct) (auto split: option.splits)
  from snoc.prems show ?case by (auto simp: app split: option.splits)
qed

lemma finalPointer_last:
  "finalPointer W f (vs @ [JVal j]) p = Some p' \<Longrightarrow>
     \<exists>v. p' = Some v \<and>
       (unmarshal W f j = Some v \<or> (\<exists>old. unmarshalInto W f old j = Some v))"
  by (induction W f vs p rule: finalPointer.induct)
     (auto simp: decodeValue_def split: option.splits)

lemma finalPointer_single:
  "finalPointer W f [JVal j] None = Some p' \<Longrightarrow> \<exists>v. p' = Some v \<and> unmarshal W f j = Some v"
  by (cases "unmarshal W f j") (auto simp: decodeValue_def)

lemma pointer_mem:
  "f \<in> fst ` set inp \<Longrightarrow> distinct (map fst inp) \<Longrightarrow> (f, pointer inp f) \<in> set inp"
  by (auto simp: pointer_def)

lemma pointer_generated [simp]:
  "pointer (generateStructWithOptionalFields T) f = None"
  by (auto simp: pointer_def generateStructWithOptionalFields_def map_of_eq_None_iff
      split: option.splits dest!: map_of_SomeD)

lemma fst_generated [simp]:
  "map fst (generateStructWithOptionalFields T) = filter optional T"
  by (simp add: generateStructWithOptionalFields_def comp_def)

lemma distinct_fields: "distinct (map fname T) \<Longrightarrow> distinct (filter optional T)"
  by (simp add: distinct_map)

text \<open>
  C3, as amended. A \<open>/v1/config/set\<close> request that is answered 200 (its body decoded,
  the resulting configuration validated and was committed) changes the configuration
  field by field. For a field of the optional struct (every field of \<open>conf.Conf\<close> whose
  tag is neither \<open>-\<close> nor \<open>paths\<close>), take the values the body gives it, that is those of
  the members whose key is the field's, exactly or up to case:
  \<^item> when there is none, or the last is \<open>null\<close>, the field keeps its previous value;
  \<^item> when there is one and it is not \<open>null\<close>, the field holds the value decoded from it;
  \<^item> when there are several and the last is not \<open>null\<close>, the field holds the value
    decoded from the last, afresh or into the value decoded before it.

  Every field outside the optional struct keeps its previous value, and the paths map is
  the previous one whatever the body holds under \<open>paths\<close>. The field names of
  \<open>conf.Conf\<close> are distinct, as those of a Go struct are, and so are the keys of the
  optional struct (\<open>encoding/json\<close> would leave out fields that share a key).
\<close>

theorem config_set_overrides_present_fields:
  assumes names: "distinct (map fname (confModel W))"
    and keys: "distinct (map ftag (filter optional (confModel W)))"
    and ok: "onConfigSet W (Object ms) a = (Status StatusOK, a')"
  shows "(\<forall>f \<in> set (confModel W). optional f \<longrightarrow>
            (let vs = valuesFor W (filter optional (confModel W)) ms f
             in (vs = [] \<or> last vs = JNull \<longrightarrow>
                   globals (conf a') (fname f) = globals (conf a) (fname f)) \<and>
                (\<forall>j. vs = [JVal j] \<longrightarrow>
                   unmarshal W f j = Some (globals (conf a') (fname f))) \<and>
                (\<forall>j. vs \<noteq> [] \<and> last vs = JVal j \<longrightarrow>
                   unmarshal W f j = Some (globals (conf a') (fname f)) \<or>
                   (\<exists>old. unmarshalInto W f old j = Some (globals (conf a') (fname f)))))) \<and>
         (\<forall>n. n \<notin> fname ` {f \<in> set (confModel W). optional f} \<longrightarrow>
            globals (conf a') n = globals (conf a) n) \<and>
         Paths (conf a') = Paths (conf a)"
proof -
  let ?gen = "generateStructWithOptionalFields (confModel W) :: 'a optstruct"
  let ?fs = "filter optional (confModel W)"
  from ok obtain inp where load: "loadConfData W (Object ms) = Some inp"
    by (cases "loadConfData W (Object ms)") (simp_all add: onConfigSet_def)
  then have dec: "Decode W ms ?gen = Some inp"
    by (simp add: loadConfData_def loadData_def)
  from ok load obtain g where
    fill: "fillStruct (confModel W) (globals (conf a)) inp = Some g"
    by (cases "fillStruct (confModel W) (globals (conf a)) inp")
       (simp_all add: onConfigSet_def Clone_def)
  from ok load fill have a': "conf a' = (conf a)\<lparr>globals := g\<rparr>"
    by (cases "Check W ((conf a)\<lparr>globals := g\<rparr>)")
       (auto simp: onConfigSet_def Clone_def commit_def Let_def)
  have g: "globals (conf a') = g" by (simp add: a')
  from Decode_fields [OF dec] have fields: "map fst inp = ?fs" by simp
  have dfs: "distinct (map fst inp)" using distinct_fields [OF names] fields by simp
  have "map (\<lambda>x. fname (fst x)) inp = map fname (map fst inp)" by (simp add: comp_def)
  then have dist: "distinct (map (\<lambda>x. fname (fst x)) inp)"
    using names fields by (simp add: distinct_map_filter)
  have fset: "fst ` set inp = {f \<in> set (confModel W). optional f}"
  proof -
    have "fst ` set inp = set (map fst inp)" by simp
    then show ?thesis by (simp only: fields) auto
  qed
  have field: "let vs = valuesFor W ?fs ms f
             in (vs = [] \<or> last vs = JNull \<longrightarrow>
                   globals (conf a') (fname f) = globals (conf a) (fname f)) \<and>
                (\<forall>j. vs = [JVal j] \<longrightarrow>
                   unmarshal W f j = Some (globals (conf a') (fname f))) \<and>
                (\<forall>j. vs \<noteq> [] \<and> last vs = JVal j \<longrightarrow>
                   unmarshal W f j = Some (globals (conf a') (fname f)) \<or>
                   (\<exists>old. unmarshalInto W f old j = Some (globals (conf a') (fname f))))"
    if f: "f \<in> set (confModel W)" "optional f" for f
  proof -
    let ?vs = "valuesFor W ?fs ms f"
    from f have mem: "f \<in> set (map fst ?gen)" by simp
    from Decode_pointers [OF dec mem]
    have fin: "finalPointer W f ?vs None = Some (pointer inp f)" by simp
    from f fset have "f \<in> fst ` set inp" by simp
    from pointer_mem [OF this dfs] have entry: "(f, pointer inp f) \<in> set inp" .
    from fillStruct_field [OF fill dist entry]
    have v: "g (fname f) =
        (case pointer inp f of Some v \<Rightarrow> v | None \<Rightarrow> globals (conf a) (fname f))" .
    have 1: "g (fname f) = globals (conf a) (fname f)" if "?vs = [] \<or> last ?vs = JNull"
      using finalPointer_null [OF that fin] v by simp
    have 2: "unmarshal W f j = Some (g (fname f))" if "?vs = [JVal j]" for j
      using finalPointer_single [of W f j "pointer inp f"] fin that v by auto
    have 3: "unmarshal W f j = Some (g (fname f)) \<or>
             (\<exists>old. unmarshalInto W f old j = Some (g (fname f)))"
      if "?vs \<noteq> [] \<and> last ?vs = JVal j" for j
    proof -
      from that obtain xs where "?vs = xs @ [JVal j]"
        by (metis append_butlast_last_id)
      with finalPointer_last [of W f xs j None "pointer inp f"] fin v show ?thesis by auto
    qed
    from 1 2 3 show ?thesis by (simp add: g Let_def)
  qed
  moreover have "globals (conf a') n = globals (conf a) n"
    if "n \<notin> fname ` {f \<in> set (confModel W). optional f}" for n
    using fillStruct_frame [OF fill, of n] that fset by (simp add: g)
  moreover have "Paths (conf a') = Paths (conf a)" by (simp add: a')
  ultimately show ?thesis by blast
qed

theorem config_set_overrides_present_fields_witness:
  "distinct (map fname (confModel demoDeps)) \<and>
   distinct (map ftag (filter optional (confModel demoDeps))) \<and>
   onConfigSet demoDeps (Object [(''LOGLEVEL'', JVal 3), (''paths'', JVal 3)]) demoApi =
     (Status StatusOK, commit (demoConf\<lparr>globals := (\<lambda>_. 1)(''LogLevel'' := 3)\<rparr>) demoApi) \<and>
   valuesFor demoDeps (filter optional (confModel demoDeps))
     [(''LOGLEVEL'', JVal 3), (''paths'', JVal 3)]
     \<lparr>fname = ''LogLevel'', ftag = ''logLevel'', fkind = NonPtr\<rparr> = [JVal 3] \<and>
   unmarshal demoDeps \<lparr>fname = ''LogLevel'', ftag = ''logLevel'', fkind = NonPtr\<rparr> 3 =
     Some (globals (conf (commit (demoConf\<lparr>globals := (\<lambda>_. 1)(''LogLevel'' := 3)\<rparr>) demoApi))
             ''LogLevel'') \<and>
   globals (conf (commit (demoConf\<lparr>globals := (\<lambda>_. 1)(''LogLevel'' := 3)\<rparr>) demoApi))
     ''Internal'' = 1 \<and>
   Paths (conf (commit (demoConf\<lparr>globals := (\<lambda>_. 1)(''LogLevel'' := 3)\<rparr>) demoApi))
     = Paths (conf demoApi)"
proof -
  have d: "distinct (map fname (confModel demoDeps))" by (simp add: demo_simps)
  have k: "distinct (map ftag (filter optional (confModel demoDeps)))"
    by (simp add: demo_simps optional_def)
  have s: "onConfigSet demoDeps (Object [(''LOGLEVEL'', JVal 3), (''paths'', JVal 3)]) demoApi =
     (Status StatusOK, commit (demoConf\<lparr>globals := (\<lambda>_. 1)(''LogLevel'' := 3)\<rparr>) demoApi)"
    by (simp add: handler_defs demo_simps)
  have v: "valuesFor demoDeps (filter optional (confModel demoDeps))
     [(''LOGLEVEL'', JVal 3), (''paths'', JVal 3)]
     \<lparr>fname = ''LogLevel'', ftag = ''logLevel'', fkind = NonPtr\<rparr> = [JVal 3]"
    by (simp add: valuesFor_def fieldFor_def demo_simps optional_def asciiLower_def)
  from config_set_overrides_present_fields [OF d k s] d k s v show ?thesis
    by (simp add: demo_simps optional_def commit_def)
qed

text \<open>
  The claim as stated fails for the field \<open>paths\<close>: a body whose \<open>paths\<close> member lists
  \<open>cam\<close> and \<open>door\<close> is answered 200, and the committed configuration still has the
  path \<open>cam\<close> alone.
\<close>

theorem config_set_ignores_paths:
  "onConfigSet demoDeps (Object [(''paths'', JVal 3)]) demoApi
     = (Status StatusOK, commit demoConf demoApi) \<and>
   Paths (conf (commit demoConf demoApi)) ''door'' = None \<and>
   marshalPaths demoDeps (Paths (conf (commit demoConf demoApi))) = JVal 1"
proof -
  have "demoConf\<lparr>globals := globals demoConf\<rparr> = demoConf" by simp
  then show ?thesis
    by (simp add: handler_defs demo_simps commit_def demoDeps_def)
qed

text \<open>
  A key given twice is decoded twice: a body whose first \<open>logLevel\<close> does not decode is
  answered 400 although its second one would.
\<close>

lemma config_set_repeated_key:
  "onConfigSet demoDeps (Object [(''logLevel'', JVal 100), (''logLevel'', JVal 3)]) demoApi
     = (Status StatusBadRequest, demoApi)"
  by (simp add: handler_defs demo_simps)

lemma FieldByName_mem:
  "distinct (map fname T) \<Longrightarrow> f \<in> set T \<Longrightarrow> FieldByName T (fname f) = Some f"
  unfolding FieldByName_def
  by (induction T) (auto simp: image_iff)

lemma fillStruct_same:
  "distinct (map fname T) \<Longrightarrow>
   (\<forall>f p. (f, p) \<in> set inp \<longrightarrow>
      f \<in> set T \<and> (\<forall>v. p = Some v \<longrightarrow> v = dest (fname f) \<and> fkind f \<noteq> Ptr)) \<Longrightarrow>
   fillStruct T dest inp = Some dest"
proof (induction T dest inp rule: fillStruct.induct)
  case (1 T dest)
  then show ?case by simp
next
  case (2 T dest sf rest)
  then show ?case by simp
next
  case (3 T dest sf v rest)
  from 3(3) have sf: "sf \<in> set T" "v = dest (fname sf)" "fkind sf \<noteq> Ptr" by auto
  from FieldByName_mem [OF 3(2) sf(1)] have look: "FieldByName T (fname sf) = Some sf" .
  have same: "dest(fname sf := v) = dest" using sf(2) by simp
  from 3(1) [OF look sf(3) 3(2)] 3(3) same have "fillStruct T dest rest = Some dest"
    by simp
  with look sf(3) same show ?case by simp
qed

lemma filter_eq_single: "distinct xs \<Longrightarrow> f \<in> set xs \<Longrightarrow> filter (\<lambda>g. g = f) xs = [f]"
  by (induction xs) (auto simp: filter_empty_conv)

lemma find_tag_unique:
  "distinct (map ftag fs) \<Longrightarrow> f \<in> set fs \<Longrightarrow> find (\<lambda>h. ftag h = ftag f) fs = Some f"
  by (induction fs) (auto simp: image_iff)

lemma fieldFor_encoded:
  assumes tags: "distinct (map ftag (filter (\<lambda>f. ftag f \<noteq> ''-'') (confModel W)))"
    and paths: "\<forall>h \<in> set (confModel W). optional h \<longrightarrow> \<not> equalFold W (ftag h) ''paths''"
    and g: "g \<in> set (confModel W)" "ftag g \<noteq> ''-''"
  shows "fieldFor W (filter optional (confModel W)) (ftag g) = (if optional g then Some g else None)"
proof (cases "optional g")
  case True
  have "distinct (map ftag
      (filter (\<lambda>f. ftag f \<noteq> ''paths'') (filter (\<lambda>f. ftag f \<noteq> ''-'') (confModel W))))"
    using tags by (rule distinct_map_filter)
  moreover have "filter (\<lambda>f. ftag f \<noteq> ''paths'') (filter (\<lambda>f. ftag f \<noteq> ''-'') (confModel W))
      = filter optional (confModel W)"
    unfolding filter_filter by (rule filter_cong [OF refl]) (auto simp: optional_def)
  ultimately have "distinct (map ftag (filter optional (confModel W)))"
    by simp
  from find_tag_unique [OF this, of g] g True show ?thesis
    by (simp add: fieldFor_def)
next
  case False
  with g have p: "ftag g = ''paths''" by (simp add: optional_def)
  have "find (\<lambda>f. ftag f = ''paths'') (filter optional (confModel W)) = None"
    by (auto simp: find_None_iff optional_def)
  moreover have "find (\<lambda>f. equalFold W (ftag f) ''paths'') (filter optional (confModel W)) = None"
    using paths by (auto simp: find_None_iff)
  ultimately show ?thesis using False p by (simp add: fieldFor_def)
qed

lemma valuesFor_encodeConf:
  assumes names: "distinct (map fname (confModel W))"
    and tags: "distinct (map ftag (filter (\<lambda>f. ftag f \<noteq> ''-'') (confModel W)))"
    and paths: "\<forall>h \<in> set (confModel W). optional h \<longrightarrow> \<not> equalFold W (ftag h) ''paths''"
    and f: "f \<in> set (confModel W)" "optional f"
  shows "valuesFor W (filter optional (confModel W)) (encodeConf W c) f
       = [marshal W f (globals c (fname f))]"
proof -
  let ?T = "confModel W"
  let ?enc = "\<lambda>g. (ftag g, if ftag g = ''paths'' then marshalPaths W (Paths c)
                          else marshal W g (globals c (fname g)))"
  have d: "distinct ?T" using names by (simp add: distinct_map)
  have sel: "filter (\<lambda>g. ftag g \<noteq> ''-'' \<and> fieldFor W (filter optional ?T) (ftag g) = Some f) ?T
      = filter (\<lambda>g. g = f) ?T"
  proof (rule filter_cong [OF refl])
    fix g assume g: "g \<in> set ?T"
    show "(ftag g \<noteq> ''-'' \<and> fieldFor W (filter optional ?T) (ftag g) = Some f) = (g = f)"
      using fieldFor_encoded [OF tags paths g] f by (auto simp: optional_def split: if_splits)
  qed
  have "valuesFor W (filter optional ?T) (encodeConf W c) f
      = map (\<lambda>g. snd (?enc g))
          (filter (\<lambda>g. ftag g \<noteq> ''-'' \<and> fieldFor W (filter optional ?T) (ftag g) = Some f) ?T)"
    by (simp add: valuesFor_def encodeConf_def filter_map comp_def conj_commute)
  also have "\<dots> = map (\<lambda>g. snd (?enc g)) [f]"
    by (simp only: sel filter_eq_single [OF d f(1)])
  also have "\<dots> = [marshal W f (globals c (fname f))]"
    using f(2) by (simp add: optional_def)
  finally show ?thesis .
qed

text \<open>
  C4. Posting to \<open>/v1/config/set\<close> the document that \<open>/v1/config/get\<close> returned is
  answered 200 and leaves the stored configuration as it was. The hypotheses say what
  the claim takes for granted of the parts outside the sources: the struct type has
  distinct field names and distinct JSON keys, none of the optional struct's keys
  equals \<open>paths\<close> up to case (the document's \<open>paths\<close> member would be decoded into that
  field), the stored configuration is valid, and for each field of the optional struct
  the codec round-trips the stored value (it is encoded as \<open>null\<close>, or the field is not
  of pointer kind and decoding the encoded text gives the value back).
\<close>

theorem config_set_of_get_is_identity:
  assumes names: "distinct (map fname (confModel W))"
    and tags: "distinct (map ftag (filter (\<lambda>f. ftag f \<noteq> ''-'') (confModel W)))"
    and paths: "\<forall>h \<in> set (confModel W). optional h \<longrightarrow> \<not> equalFold W (ftag h) ''paths''"
    and valid: "Check W (conf a) = None"
    and codec: "\<forall>f \<in> set (confModel W). optional f \<longrightarrow>
        (case marshal W f (globals (conf a) (fname f)) of
           JNull \<Rightarrow> True
         | JVal j \<Rightarrow> fkind f \<noteq> Ptr \<and> unmarshal W f j = Some (globals (conf a) (fname f)))"
    and got: "onConfigGet W a = (JSON StatusOK b, a1)"
  shows "\<exists>a'. onConfigSet W b a1 = (Status StatusOK, a') \<and> conf a' = conf a"
proof -
  let ?ms = "encodeConf W (conf a)"
  let ?gen = "generateStructWithOptionalFields (confModel W) :: 'a optstruct"
  let ?fs = "filter optional (confModel W)"
  from got have b: "b = Object ?ms" and a1: "a1 = a"
    by (auto simp: onConfigGet_def)
  have fin: "finalPointer W f (valuesFor W ?fs ?ms f) None =
      Some (case marshal W f (globals (conf a) (fname f)) of
              JNull \<Rightarrow> None | JVal j \<Rightarrow> Some (globals (conf a) (fname f)))"
    if f: "f \<in> set (confModel W)" "optional f" for f
    using codec f valuesFor_encodeConf [OF names tags paths f, of "conf a"]
    by (auto simp: decodeValue_def split: json.splits)
  then have "\<forall>f \<in> set (map fst ?gen).
      finalPointer W f (valuesFor W (map fst ?gen) ?ms f) (pointer ?gen f) \<noteq> None"
    by simp
  from Decode_total [OF this] obtain inp where inp: "Decode W ?ms ?gen = Some inp" ..
  from Decode_fields [OF inp] have fields: "map fst inp = ?fs" by simp
  have dfs: "distinct (map fst inp)" using distinct_fields [OF names] fields by simp
  have "f \<in> set (confModel W) \<and>
        (\<forall>v. p = Some v \<longrightarrow> v = globals (conf a) (fname f) \<and> fkind f \<noteq> Ptr)"
    if m: "(f, p) \<in> set inp" for f p
  proof -
    from m have "f \<in> set (map fst inp)" by force
    with fields have f: "f \<in> set (confModel W)" "optional f" by simp_all
    then have mem: "f \<in> set (map fst ?gen)" by simp
    from Decode_pointers [OF inp mem] pointer_entry [OF dfs m] fin [OF f]
    have "p = (case marshal W f (globals (conf a) (fname f)) of
              JNull \<Rightarrow> None | JVal j \<Rightarrow> Some (globals (conf a) (fname f)))"
      by simp
    with codec f show ?thesis
      by (auto split: json.splits)
  qed
  then have "fillStruct (confModel W) (globals (conf a)) inp = Some (globals (conf a))"
    using fillStruct_same [OF names, of inp "globals (conf a)"] by blast
  with inp valid show ?thesis
    by (simp add: b a1 onConfigSet_def loadConfData_def loadData_def Clone_def commit_def)
qed

theorem config_set_of_get_is_identity_witness:
  "distinct (map fname (confModel demoDeps)) \<and>
   distinct (map ftag (filter (\<lambda>f. ftag f \<noteq> ''-'') (confModel demoDeps))) \<and>
   \<not> equalFold demoDeps ''logLevel'' ''paths'' \<and>
   Check demoDeps (conf demoApi) = None \<and>
   onConfigGet demoDeps demoApi =
     (JSON StatusOK (Object [(''logLevel'', JVal 1), (''paths'', JVal 1)]), demoApi) \<and>
   (\<exists>a'. onConfigSet demoDeps (Object [(''logLevel'', JVal 1), (''paths'', JVal 1)]) demoApi
            = (Status StatusOK, a') \<and> conf a' = conf demoApi)"
proof -
  have d: "distinct (map fname (confModel demoDeps))" by (simp add: demo_simps)
  have t: "distinct (map ftag (filter (\<lambda>f. ftag f \<noteq> ''-'') (confModel demoDeps)))"
    by (simp add: demo_simps)
  have p: "\<forall>h \<in> set (confModel demoDeps). optional h \<longrightarrow> \<not> equalFold demoDeps (ftag h) ''paths''"
    by (simp add: demo_simps optional_def asciiLower_def)
  have v: "Check demoDeps (conf demoApi) = None" by (simp add: demo_simps)
  have c: "\<forall>f \<in> set (confModel demoDeps). optional f \<longrightarrow>
        (case marshal demoDeps f (globals (conf demoApi) (fname f)) of
           JNull \<Rightarrow> True
         | JVal j \<Rightarrow> fkind f \<noteq> Ptr \<and> unmarshal demoDeps f j = Some (globals (conf demoApi) (fname f)))"
    by (simp add: demo_simps optional_def)
  have g: "onConfigGet demoDeps demoApi =
     (JSON StatusOK (Object [(''logLevel'', JVal 1), (''paths'', JVal 1)]), demoApi)"
    by (simp add: handler_defs demo_simps demoDeps_def)
  have q: "\<not> equalFold demoDeps ''logLevel'' ''paths''"
    by (simp add: demo_simps asciiLower_def)
  from config_set_of_get_is_identity [OF d t p v c g] d t q v g show ?thesis by simp
qed

section \<open>Properties of the RTSP session\<close>

lemma rtsp_status_distinct [simp]:
  "StatusNotFound \<noteq> StatusBadRequest" "StatusNotFound \<noteq> StatusOK"
  "StatusBadRequest \<noteq> StatusNotFound" "StatusOK \<noteq> StatusNotFound"
  by (simp_all add: StatusNotFound_def StatusBadRequest_def StatusOK_def)

lemmas rtsp_demo_defs = demoRtspEnv_def demoSession_def demoConn_def demoCtx_def
  demoReaderAdd_def demoStream_def legacyStream_def response_def invalidPath_def
  ensureNonce_def setupReq_def setupBaseURL_def announceReq_def playDirection_def

text \<open>
  C7. A SETUP in the play direction (valid path, transport allowed, session in
  \<open>Initial\<close> or \<open>PrePlay\<close>) that the path manager rejects with error \<open>e\<close>: when \<open>e\<close> is
  \<open>pathErrNoOnePublishing\<close> the response has status 404 and carries the error; when \<open>e\<close>
  is \<open>pathErrAuth\<close> the response and error are those of the connection's
  \<open>handleAuthError\<close> on the wrapped error; for every other error the status is 400. No
  stream is returned and the session keeps its state, path and stream.
\<close>

theorem setup_play_rejection_status:
  assumes valid: "\<not> invalidPath (ctxPath ctx)"
    and transport: "ctxTransport ctx = TransportTCP \<longrightarrow> TransportTCP \<in> protocols s"
    and play: "playDirection (sessionState s)"
    and rejected: "readerAdd E (setupReq s (ensureNonce E c) ctx (tl (ctxPath ctx))) = Inl e"
    and result: "onSetup E s c ctx = ((res, st, er), s', c')"
  shows "(case e of
            pathErrNoOnePublishing n \<Rightarrow> StatusCode res = StatusNotFound \<and> er = Some e
          | pathErrAuth wrapped \<Rightarrow> (res, er) = handleAuthError E (ensureNonce E c) wrapped
          | errorString m \<Rightarrow> StatusCode res = StatusBadRequest \<and> er = Some e) \<and>
         st = None \<and> state s' = state s \<and> path s' = path s \<and> stream s' = stream s"
  using assms
  by (auto simp: onSetup_def Let_def response_def split: err.splits prod.splits)

lemma demo_setup_nobody:
  "onSetup demoRtspEnv (demoSession ServerSessionStateInitial) demoConn (demoCtx ''/nobody'') =
    ((response StatusNotFound, None, Some (pathErrNoOnePublishing ''nobody'')),
     (demoSession ServerSessionStateInitial)\<lparr>effects :=
        [CallReaderAdd (setupReq (demoSession ServerSessionStateInitial)
           (demoConn\<lparr>authNonce := ''abcd''\<rparr>) (demoCtx ''/nobody'') ''nobody'')]\<rparr>,
     demoConn\<lparr>authNonce := ''abcd''\<rparr>)"
  by (simp add: onSetup_def rtsp_demo_defs Let_def)

theorem setup_play_rejection_status_witness:
  "\<not> invalidPath (ctxPath (demoCtx ''/nobody'')) \<and>
   playDirection (sessionState (demoSession ServerSessionStateInitial)) \<and>
   readerAdd demoRtspEnv
     (setupReq (demoSession ServerSessionStateInitial) (ensureNonce demoRtspEnv demoConn)
        (demoCtx ''/nobody'') (tl (ctxPath (demoCtx ''/nobody''))))
     = Inl (pathErrNoOnePublishing ''nobody'') \<and>
   StatusCode (fst (fst (onSetup demoRtspEnv (demoSession ServerSessionStateInitial) demoConn
      (demoCtx ''/nobody'')))) = 404"
proof -
  have v: "\<not> invalidPath (ctxPath (demoCtx ''/nobody''))" by (simp add: rtsp_demo_defs)
  have t: "ctxTransport (demoCtx ''/nobody'') = TransportTCP \<longrightarrow>
      TransportTCP \<in> protocols (demoSession ServerSessionStateInitial)"
    by (simp add: rtsp_demo_defs)
  have p: "playDirection (sessionState (demoSession ServerSessionStateInitial))"
    by (simp add: rtsp_demo_defs)
  have r: "readerAdd demoRtspEnv
     (setupReq (demoSession ServerSessionStateInitial) (ensureNonce demoRtspEnv demoConn)
        (demoCtx ''/nobody'') (tl (ctxPath (demoCtx ''/nobody''))))
     = Inl (pathErrNoOnePublishing ''nobody'')"
    by (simp add: rtsp_demo_defs)
  from setup_play_rejection_status [OF v t p r demo_setup_nobody] v p r show ?thesis
    by (simp add: demo_setup_nobody StatusNotFound_def)
qed

text \<open>
  C8. The recorded state \<open>s.state\<close> follows the handlers: an ANNOUNCE the path manager
  accepts sets it to \<open>PreRecord\<close>; a play-direction SETUP the path manager accepts sets
  it to \<open>PrePlay\<close>; PLAY in protocol state \<open>PrePlay\<close> sets it to \<open>Play\<close>; a RECORD whose
  \<open>publisherStart\<close> succeeds sets it to \<open>Record\<close>; PAUSE in protocol state \<open>Play\<close> sets
  it to \<open>PrePlay\<close>, and in protocol state \<open>Record\<close> sets it to \<open>PreRecord\<close> and calls
  \<open>publisherStop\<close> on the session's path. The state a handler switches on is the one
  gortsplib keeps (\<open>sessionState\<close>); PLAY and RECORD are taken on a session whose path
  is set, as ANNOUNCE and SETUP leave it.
\<close>

theorem rtsp_session_state_machine:
  "(\<not> invalidPath (ctxPath ctx) \<and>
      publisherAdd E (announceReq s (ensureNonce E c) ctx (tl (ctxPath ctx))) = Inr pa \<longrightarrow>
      fst (onAnnounce E s c ctx) = (response StatusOK, None) \<and>
      state (fst (snd (onAnnounce E s c ctx))) = ServerSessionStatePreRecord) \<and>
   (\<not> invalidPath (ctxPath ctx) \<and>
      (ctxTransport ctx = TransportTCP \<longrightarrow> TransportTCP \<in> protocols s) \<and>
      playDirection (sessionState s) \<and>
      readerAdd E (setupReq s (ensureNonce E c) ctx (tl (ctxPath ctx))) = Inr (pa, st) \<longrightarrow>
      fst (onSetup E s c ctx) = (response StatusOK, Some st, None) \<and>
      state (fst (snd (onSetup E s c ctx))) = ServerSessionStatePrePlay) \<and>
   (sessionState s = ServerSessionStatePrePlay \<and> path s = Some pa \<longrightarrow>
      (\<exists>s'. onPlay E s = Some ((response StatusOK, None), s') \<and>
            state s' = ServerSessionStatePlay)) \<and>
   (path s = Some pa \<and>
      publisherStart E (path s) (RTSPSession (uuid s)) (announcedMedias s) False = Inr st \<longrightarrow>
      (\<exists>s'. onRecord E s = Some ((response StatusOK, None), s') \<and>
            state s' = ServerSessionStateRecord)) \<and>
   (sessionState s = ServerSessionStatePlay \<longrightarrow>
      state (snd (onPause s)) = ServerSessionStatePrePlay) \<and>
   (sessionState s = ServerSessionStateRecord \<longrightarrow>
      state (snd (onPause s)) = ServerSessionStatePreRecord \<and>
      effects (snd (onPause s))
        = effects s @ [CallPublisherStop (path s) (RTSPSession (uuid s))])"
  by (auto simp: onAnnounce_def onSetup_def onPlay_def onRecord_def onPause_def Let_def)

theorem rtsp_session_state_machine_witness:
  "state (fst (snd (onAnnounce demoRtspEnv (demoSession ServerSessionStateInitial) demoConn
      (demoCtx ''/cam'')))) = ServerSessionStatePreRecord \<and>
   state (fst (snd (onSetup demoRtspEnv (demoSession ServerSessionStateInitial) demoConn
      (demoCtx ''/cam'')))) = ServerSessionStatePrePlay \<and>
   (\<exists>s'. onPlay demoRtspEnv (demoSession ServerSessionStatePrePlay)
        = Some ((response StatusOK, None), s') \<and> state s' = ServerSessionStatePlay) \<and>
   (\<exists>s'. onRecord demoRtspEnv (demoSession ServerSessionStatePreRecord)
        = Some ((response StatusOK, None), s') \<and> state s' = ServerSessionStateRecord) \<and>
   state (snd (onPause (demoSession ServerSessionStatePlay))) = ServerSessionStatePrePlay \<and>
   state (snd (onPause (demoSession ServerSessionStateRecord))) = ServerSessionStatePreRecord \<and>
   effects (snd (onPause (demoSession ServerSessionStateRecord)))
     = [CallPublisherStop (Some ''cam'') (RTSPSession ''s1'')]"
  using rtsp_session_state_machine [of "demoCtx ''/cam''" demoRtspEnv "demoSession ServerSessionStateInitial" demoConn
      "''cam''" demoStream]
    rtsp_session_state_machine [of "demoCtx ''/cam''" demoRtspEnv "demoSession ServerSessionStatePrePlay" demoConn
      "''cam''" "\<lparr>medias = []\<rparr>"]
    rtsp_session_state_machine [of "demoCtx ''/cam''" demoRtspEnv "demoSession ServerSessionStatePreRecord" demoConn
      "''cam''" "\<lparr>medias = []\<rparr>"]
    rtsp_session_state_machine [of "demoCtx ''/cam''" demoRtspEnv "demoSession ServerSessionStatePlay" demoConn
      "''cam''" "\<lparr>medias = []\<rparr>"]
    rtsp_session_state_machine [of "demoCtx ''/cam''" demoRtspEnv "demoSession ServerSessionStateRecord" demoConn
      "''cam''" "\<lparr>medias = []\<rparr>"]
  by (simp add: rtsp_demo_defs)

section \<open>Properties of the WebRTC connection\<close>

lemmas webrtc_demo_defs = demoWebrtcEnv_def demoWebRTCConn_def demoReaderAdd_def
  demoStream_def legacyStream_def runInnerReq_def

text \<open>
  C2, as amended. With the path manager of the specification behind the session's
  interface, the RTSP session's reader admission request (play-direction SETUP with a
  valid path and an allowed transport) is the one call it makes; the request does not
  set \<open>skipAuth\<close> and carries the client's credentials: query, address, protocol RTSP,
  connection id, the RTSP request, the base URL and the connection's nonce. The manager
  authenticates it before admitting the reader: when authentication fails with \<open>e\<close> the
  session answers with the connection's \<open>handleAuthError\<close> on \<open>e\<close>, returns no stream
  and keeps its path, stream and state; and when the session returns a stream,
  authentication has passed and the Path has answered with the path and stream the
  session now holds. The WebRTC connection's request, the first call of \<open>runInner\<close>,
  sets \<open>skipAuth\<close> and carries no credentials.
\<close>

theorem reader_admission_requests:
  "(readerAdd E = pathManagerReaderAdd pm \<and>
    \<not> invalidPath (ctxPath ctx) \<and>
    (ctxTransport ctx = TransportTCP \<longrightarrow> TransportTCP \<in> protocols s) \<and>
    playDirection (sessionState s) \<longrightarrow>
      (\<exists>req. effects (fst (snd (onSetup E s c ctx))) = effects s @ [CallReaderAdd req] \<and>
         \<not> skipAuth req \<and> pathName req = tl (ctxPath ctx) \<and>
         credentials req =
           \<lparr>query = ctxQuery ctx, ip = connIP c, proto = authProtocolRTSP,
            id = Some (connUUID c), rtspRequest = Some (ctxRequest ctx),
            rtspBaseURL = Some (setupBaseURL ctx (tl (ctxPath ctx))),
            rtspNonce = (if authNonce c = [] then GenerateNonce E else authNonce c)\<rparr> \<and>
         (\<forall>e. authenticate pm (pathName req) (credentials req) = Some e \<longrightarrow>
            fst (onSetup E s c ctx) =
              (fst (handleAuthError E (ensureNonce E c) e), None,
               snd (handleAuthError E (ensureNonce E c) e)) \<and>
            path (fst (snd (onSetup E s c ctx))) = path s \<and>
            stream (fst (snd (onSetup E s c ctx))) = stream s \<and>
            state (fst (snd (onSetup E s c ctx))) = state s) \<and>
         (\<forall>st. fst (snd (fst (onSetup E s c ctx))) = Some st \<longrightarrow>
            authenticate pm (pathName req) (credentials req) = None \<and>
            (\<exists>pa. pathReaderAdd pm req = Inr (pa, st) \<and>
               path (fst (snd (onSetup E s c ctx))) = Some pa \<and>
               stream (fst (snd (onSetup E s c ctx))) = Some st)))) \<and>
   (\<exists>req rest. snd (runInner W wc) = CallReaderAdd req # rest \<and>
      skipAuth req \<and> pathName req = connPathName wc \<and> credentials req = noCredentials)"
proof -
  have "\<exists>rest. snd (runInner W wc) = CallReaderAdd (runInnerReq wc) # rest"
    by (simp add: runInner_def Let_def split: sum.splits prod.splits)
  then have w: "\<exists>req rest. snd (runInner W wc) = CallReaderAdd req # rest \<and>
      skipAuth req \<and> pathName req = connPathName wc \<and> credentials req = noCredentials"
    by (auto simp: runInnerReq_def)
  let ?req = "setupReq s (ensureNonce E c) ctx (tl (ctxPath ctx))"
  have r: "effects (fst (snd (onSetup E s c ctx))) = effects s @ [CallReaderAdd ?req] \<and>
      (\<forall>e. authenticate pm (pathName ?req) (credentials ?req) = Some e \<longrightarrow>
            fst (onSetup E s c ctx) =
              (fst (handleAuthError E (ensureNonce E c) e), None,
               snd (handleAuthError E (ensureNonce E c) e)) \<and>
            path (fst (snd (onSetup E s c ctx))) = path s \<and>
            stream (fst (snd (onSetup E s c ctx))) = stream s \<and>
            state (fst (snd (onSetup E s c ctx))) = state s) \<and>
      (\<forall>st. fst (snd (fst (onSetup E s c ctx))) = Some st \<longrightarrow>
            authenticate pm (pathName ?req) (credentials ?req) = None \<and>
            (\<exists>pa. pathReaderAdd pm ?req = Inr (pa, st) \<and>
               path (fst (snd (onSetup E s c ctx))) = Some pa \<and>
               stream (fst (snd (onSetup E s c ctx))) = Some st))"
    if h: "readerAdd E = pathManagerReaderAdd pm" "\<not> invalidPath (ctxPath ctx)"
      "ctxTransport ctx = TransportTCP \<longrightarrow> TransportTCP \<in> protocols s"
      "playDirection (sessionState s)"
  proof -
    have ns: "\<not> skipAuth ?req" by (simp add: setupReq_def)
    show ?thesis
    proof (cases "authenticate pm (pathName ?req) (credentials ?req)")
      case (Some e)
      with ns h(1) have "readerAdd E ?req = Inl (pathErrAuth e)"
        by (simp add: pathManagerReaderAdd_def)
      with h(2-4) Some show ?thesis
        by (simp add: onSetup_def Let_def split: prod.splits)
    next
      case None
      with ns h(1) have ra: "readerAdd E ?req = pathReaderAdd pm ?req"
        by (simp add: pathManagerReaderAdd_def)
      show ?thesis
      proof (cases "pathReaderAdd pm ?req")
        case (Inl e)
        with ra h(2-4) None show ?thesis
          by (cases e) (simp_all add: onSetup_def Let_def split: prod.splits)
      next
        case (Inr ps)
        with ra h(2-4) None show ?thesis
          by (cases ps) (simp add: onSetup_def Let_def)
      qed
    qed
  qed
  have cr: "\<not> skipAuth ?req \<and> pathName ?req = tl (ctxPath ctx) \<and>
         credentials ?req =
           \<lparr>query = ctxQuery ctx, ip = connIP c, proto = authProtocolRTSP,
            id = Some (connUUID c), rtspRequest = Some (ctxRequest ctx),
            rtspBaseURL = Some (setupBaseURL ctx (tl (ctxPath ctx))),
            rtspNonce = (if authNonce c = [] then GenerateNonce E else authNonce c)\<rparr>"
    by (simp add: setupReq_def ensureNonce_def)
  from r cr w show ?thesis by blast
qed

theorem reader_admission_requests_witness:
  "\<not> invalidPath (ctxPath (demoCtx ''/cam'')) \<and>
   playDirection (sessionState (demoSession ServerSessionStateInitial)) \<and>
   (\<exists>req. effects (fst (snd (onSetup (demoRtspEnv\<lparr>readerAdd := pathManagerReaderAdd demoPathManager\<rparr>)
              (demoSession ServerSessionStateInitial) demoConn (demoCtx ''/cam''))))
            = [CallReaderAdd req] \<and>
      \<not> skipAuth req \<and> pathName req = ''cam'' \<and>
      ip (credentials req) = ''10.0.0.7'' \<and> proto (credentials req) = authProtocolRTSP \<and>
      rtspNonce (credentials req) = ''abcd'' \<and>
      authenticate demoPathManager (pathName req) (credentials req) = None) \<and>
   fst (snd (fst (onSetup (demoRtspEnv\<lparr>readerAdd := pathManagerReaderAdd demoPathManager\<rparr>)
      (demoSession ServerSessionStateInitial) demoConn (demoCtx ''/cam'')))) = Some demoStream \<and>
   fst (onSetup (demoRtspEnv\<lparr>readerAdd := pathManagerReaderAdd demoPathManager\<rparr>)
      (demoSession ServerSessionStateInitial) demoConn (demoCtx ''/secret''))
     = (response 401, None, Some (errorString ''wrong credentials'')) \<and>
   (\<exists>req rest. snd (runInner demoWebrtcEnv (demoWebRTCConn ''cam'')) = CallReaderAdd req # rest \<and>
      skipAuth req \<and> pathName req = ''cam'' \<and> credentials req = noCredentials)"
  using reader_admission_requests
      [of "demoRtspEnv\<lparr>readerAdd := pathManagerReaderAdd demoPathManager\<rparr>" demoPathManager
          "demoCtx ''/cam''" "demoSession ServerSessionStateInitial" demoConn
          demoWebrtcEnv "demoWebRTCConn ''cam''"]
    reader_admission_requests
      [of "demoRtspEnv\<lparr>readerAdd := pathManagerReaderAdd demoPathManager\<rparr>" demoPathManager
          "demoCtx ''/secret''" "demoSession ServerSessionStateInitial" demoConn
          demoWebrtcEnv "demoWebRTCConn ''cam''"]
  by (auto simp: rtsp_demo_defs demoWebRTCConn_def demoPathManager_def pathManagerReaderAdd_def
      onSetup_def Let_def)

text \<open>
  The claim as stated fails for the WebRTC wrapper: the request \<open>runInner\<close> sends for
  the path \<open>cam\<close> has \<open>skipAuth\<close> set and every credential field at its zero value. The
  calls of that run are \<open>readerAdd\<close> with this request and the deferred \<open>readerRemove\<close>.
\<close>

theorem webrtc_reader_request_skips_auth:
  "snd (runInner demoWebrtcEnv (demoWebRTCConn ''cam'')) =
     [CallReaderAdd
        \<lparr>author = WebRTCConn ''w1'', pathName = ''cam'', skipAuth = True,
         credentials =
           \<lparr>query = [], ip = [], proto = authProtocolUnset, id = None, rtspRequest = None,
            rtspBaseURL = None, rtspNonce = []\<rparr>\<rparr>,
      CallReaderRemove (Some ''cam'') (WebRTCConn ''w1'')]"
  by (simp add: runInner_def runInnerTracks_def createVideoTrack_def createAudioTrack_def
      NewTrackLocalStaticRTP_def webrtc_demo_defs noCredentials_def Let_def)

lemma FindFormat_None:
  "FindFormat k ms = None \<longleftrightarrow> \<not> list_ex (\<lambda>m. list_ex (\<lambda>f. codecOf f = k) (Formats m)) ms"
proof (induction ms)
  case Nil
  then show ?case by simp
next
  case (Cons m ms)
  show ?case
  proof (cases "find (\<lambda>f. codecOf f = k) (Formats m)")
    case None
    then have "\<not> list_ex (\<lambda>f. codecOf f = k) (Formats m)"
      by (simp add: find_None_iff list_ex_iff)
    with None Cons show ?thesis by simp
  next
    case (Some f)
    then have "list_ex (\<lambda>f. codecOf f = k) (Formats m)"
      by (auto simp: find_Some_iff list_ex_iff)
    with Some show ?thesis by simp
  qed
qed

lemma FindFormat_Some:
  "FindFormat k ms = Some (m, f) \<Longrightarrow> codecOf f = k \<and> m \<in> set ms \<and> f \<in> set (Formats m)"
  by (induction ms) (auto simp: find_Some_iff split: option.splits)

lemma firstOf_FindFormat:
  "firstOf (k # ks) ms = (if FindFormat k ms = None then firstOf ks ms else Some k)"
  by (simp add: FindFormat_None)


lemma createVideoTrack_priority:
  assumes "createVideoTrack E ms = Inr v"
  shows "map_option (\<lambda>t. codecOf (trackFormat t)) v = firstOf [AV1, VP9, VP8, H264] ms"
proof -
  have c: "codecOf f = k" if "FindFormat k ms = Some (m, f)" for k m f
    using FindFormat_Some [OF that] by simp
  show ?thesis
  proof (cases "FindFormat AV1 ms")
    case (Some mf)
    with assms c [of AV1 "fst mf" "snd mf"] show ?thesis
      by (auto simp: createVideoTrack_def NewTrackLocalStaticRTP_def firstOf_FindFormat
          simp del: firstOf.simps split: option.splits sum.splits prod.splits)
  next
    case n1: None
    show ?thesis
    proof (cases "FindFormat VP9 ms")
      case (Some mf)
      with assms n1 c [of VP9 "fst mf" "snd mf"] show ?thesis
        by (auto simp: createVideoTrack_def NewTrackLocalStaticRTP_def firstOf_FindFormat
            simp del: firstOf.simps split: option.splits sum.splits prod.splits)
    next
      case n2: None
      show ?thesis
      proof (cases "FindFormat VP8 ms")
        case (Some mf)
        with assms n1 n2 c [of VP8 "fst mf" "snd mf"] show ?thesis
          by (auto simp: createVideoTrack_def NewTrackLocalStaticRTP_def firstOf_FindFormat
              simp del: firstOf.simps split: option.splits sum.splits prod.splits)
      next
        case n3: None
        show ?thesis
        proof (cases "FindFormat H264 ms")
          case (Some mf)
          with assms n1 n2 n3 c [of H264 "fst mf" "snd mf"] show ?thesis
            by (auto simp: createVideoTrack_def NewTrackLocalStaticRTP_def firstOf_FindFormat
                simp del: firstOf.simps split: option.splits sum.splits prod.splits)
        next
          case n4: None
          with assms n1 n2 n3 show ?thesis
            by (auto simp: createVideoTrack_def firstOf_FindFormat simp del: firstOf.simps(2))
        qed
      qed
    qed
  qed
qed

lemma createAudioTrack_priority:
  assumes "createAudioTrack E ms = Inr v"
  shows "map_option (\<lambda>t. codecOf (trackFormat t)) v = firstOf [Opus, G722, G711] ms"
proof -
  have c: "codecOf f = k" if "FindFormat k ms = Some (m, f)" for k m f
    using FindFormat_Some [OF that] by simp
  show ?thesis
  proof (cases "FindFormat Opus ms")
    case (Some mf)
    with assms c [of Opus "fst mf" "snd mf"] show ?thesis
      by (auto simp: createAudioTrack_def NewTrackLocalStaticRTP_def firstOf_FindFormat
          simp del: firstOf.simps split: option.splits sum.splits prod.splits)
  next
    case n1: None
    show ?thesis
    proof (cases "FindFormat G722 ms")
      case (Some mf)
      with assms n1 c [of G722 "fst mf" "snd mf"] show ?thesis
        by (auto simp: createAudioTrack_def NewTrackLocalStaticRTP_def firstOf_FindFormat
            simp del: firstOf.simps split: option.splits sum.splits prod.splits)
    next
      case n2: None
      show ?thesis
      proof (cases "FindFormat G711 ms")
        case (Some mf)
        with assms n1 n2 c [of G711 "fst mf" "snd mf"] show ?thesis
          by (auto simp: createAudioTrack_def NewTrackLocalStaticRTP_def firstOf_FindFormat
              Let_def simp del: firstOf.simps split: option.splits sum.splits prod.splits)
      next
        case n3: None
        with assms n1 n2 show ?thesis
          by (auto simp: createAudioTrack_def firstOf_FindFormat simp del: firstOf.simps(2))
      qed
    qed
  qed
qed



lemma firstOf_mem: "firstOf ks ms = Some k \<Longrightarrow> k \<in> set ks"
  by (induction ks) (auto split: if_splits)

lemma firstOf_append_None:
  "firstOf (ks @ ks') ms = None \<longleftrightarrow> firstOf ks ms = None \<and> firstOf ks' ms = None"
  by (induction ks) auto

lemma createVideoTrack_media:
  "createVideoTrack E ms = Inr (Some t) \<Longrightarrow>
     trackMedia t \<in> set ms \<and> trackFormat t \<in> set (Formats (trackMedia t))"
  unfolding createVideoTrack_def NewTrackLocalStaticRTP_def
  by (auto dest!: FindFormat_Some split: option.splits sum.splits prod.splits)

lemma createAudioTrack_media:
  "createAudioTrack E ms = Inr (Some t) \<Longrightarrow>
     trackMedia t \<in> set ms \<and> trackFormat t \<in> set (Formats (trackMedia t))"
  unfolding createAudioTrack_def NewTrackLocalStaticRTP_def
  by (auto simp: Let_def dest!: FindFormat_Some split: option.splits sum.splits prod.splits)

lemma runInnerTracks_Inr:
  assumes "runInnerTracks E ms = Inr ts"
  shows "\<exists>v a. createVideoTrack E ms = Inr v \<and> createAudioTrack E ms = Inr a \<and>
           ts = (case v of None \<Rightarrow> [] | Some t \<Rightarrow> [t]) @ (case a of None \<Rightarrow> [] | Some t \<Rightarrow> [t]) \<and>
           ts \<noteq> []"
  using assms
  by (auto simp: runInnerTracks_def Let_def split: sum.splits option.splits if_splits)


lemma runInnerTracks_shape:
  assumes "runInnerTracks E ms = Inr ts"
  shows "ts \<noteq> [] \<and>
     length (filter (\<lambda>t. codecOf (trackFormat t) \<in> set videoCodecs) ts) \<le> 1 \<and>
     length (filter (\<lambda>t. codecOf (trackFormat t) \<in> set audioCodecs) ts) \<le> 1 \<and>
     (\<forall>t \<in> set ts. codecOf (trackFormat t) \<in> set (videoCodecs @ audioCodecs) \<and>
        trackMedia t \<in> set ms \<and> trackFormat t \<in> set (Formats (trackMedia t)))"
proof -
  from runInnerTracks_Inr [OF assms] obtain v a where
    v: "createVideoTrack E ms = Inr v" and a: "createAudioTrack E ms = Inr a"
    and ts: "ts = (case v of None \<Rightarrow> [] | Some t \<Rightarrow> [t]) @ (case a of None \<Rightarrow> [] | Some t \<Rightarrow> [t])"
    and ne: "ts \<noteq> []" by blast
  have vc: "codecOf (trackFormat t) \<in> {AV1, VP9, VP8, H264}" if "v = Some t" for t
    using createVideoTrack_priority [OF v] that
      firstOf_mem [of "[AV1, VP9, VP8, H264]" ms "codecOf (trackFormat t)"] by simp
  have ac: "codecOf (trackFormat t) \<in> {Opus, G722, G711}" if "a = Some t" for t
    using createAudioTrack_priority [OF a] that
      firstOf_mem [of "[Opus, G722, G711]" ms "codecOf (trackFormat t)"] by simp
  have vm: "trackMedia t \<in> set ms \<and> trackFormat t \<in> set (Formats (trackMedia t))"
    if "v = Some t" for t using createVideoTrack_media [of E ms t] v that by simp
  have am: "trackMedia t \<in> set ms \<and> trackFormat t \<in> set (Formats (trackMedia t))"
    if "a = Some t" for t using createAudioTrack_media [of E ms t] a that by simp
  show ?thesis
    using ne vc ac vm am
    by (cases v; cases a) (auto simp: ts videoCodecs_def audioCodecs_def)
qed

lemma runInnerTracks_unsupported:
  assumes "firstOf (videoCodecs @ audioCodecs) ms = None"
  shows "runInnerTracks E ms = Inl unsupportedCodec"
proof -
  from assms have "firstOf [AV1, VP9, VP8, H264] ms = None" "firstOf [Opus, G722, G711] ms = None"
    by (simp_all only: firstOf_append_None videoCodecs_def audioCodecs_def)
  then have n: "FindFormat AV1 ms = None" "FindFormat VP9 ms = None" "FindFormat VP8 ms = None"
    "FindFormat H264 ms = None" "FindFormat Opus ms = None" "FindFormat G722 ms = None"
    "FindFormat G711 ms = None"
    by (simp_all add: firstOf_FindFormat del: firstOf.simps(2) split: if_splits)
  then have "createVideoTrack E ms = Inr None" "createAudioTrack E ms = Inr None"
    by (simp_all add: createVideoTrack_def createAudioTrack_def)
  then show ?thesis by (simp add: runInnerTracks_def)
qed

lemma newTrack_cases:
  "(\<exists>t. NewTrackLocalStaticRTP E c i sid = Inr t) \<or>
   (\<exists>e. NewTrackLocalStaticRTP E c i sid = Inl e \<and> newTrackError E c i sid = Some e)"
  by (auto simp: NewTrackLocalStaticRTP_def split: option.splits)

lemma firstOf_video_cases:
  "firstOf videoCodecs ms =
     (if FindFormat AV1 ms \<noteq> None then Some AV1
      else if FindFormat VP9 ms \<noteq> None then Some VP9
      else if FindFormat VP8 ms \<noteq> None then Some VP8
      else if FindFormat H264 ms \<noteq> None then Some H264 else None)"
  by (simp add: videoCodecs_def firstOf_FindFormat del: firstOf.simps(2))

lemma firstOf_audio_cases:
  "firstOf audioCodecs ms =
     (if FindFormat Opus ms \<noteq> None then Some Opus
      else if FindFormat G722 ms \<noteq> None then Some G722
      else if FindFormat G711 ms \<noteq> None then Some G711 else None)"
  by (simp add: audioCodecs_def firstOf_FindFormat del: firstOf.simps(2))

lemma selected_track:
  assumes "FindFormat k ms = Some (m, f)"
  shows "selected E k ms
     (case NewTrackLocalStaticRTP E c i sid of
        Inl e \<Rightarrow> Inl e
      | Inr t \<Rightarrow> Inr (Some \<lparr>trackMedia = m, trackFormat = f, webRTCTrak = t, cb = x\<rparr>))"
proof -
  from FindFormat_Some [OF assms] have k: "codecOf f = k" by simp
  from newTrack_cases [of E c i sid] show ?thesis
  proof
    assume "\<exists>t. NewTrackLocalStaticRTP E c i sid = Inr t"
    with assms k show ?thesis by auto
  next
    assume "\<exists>e. NewTrackLocalStaticRTP E c i sid = Inl e \<and> newTrackError E c i sid = Some e"
    then obtain e where "NewTrackLocalStaticRTP E c i sid = Inl e" "newTrackError E c i sid = Some e"
      by blast
    then show ?thesis by simp blast
  qed
qed

lemma createVideoTrack_selects:
  "(case firstOf videoCodecs ms of
      None \<Rightarrow> createVideoTrack E ms = Inr None
    | Some k \<Rightarrow> selected E k ms (createVideoTrack E ms))"
proof (cases "FindFormat AV1 ms")
    case (Some mf)
    then obtain m f where mf: "FindFormat AV1 ms = Some (m, f)" by (cases mf) simp
    with selected_track [OF mf, of E] show ?thesis
      by (simp add: firstOf_video_cases createVideoTrack_def)
next
  case n1: None
  show ?thesis
  proof (cases "FindFormat VP9 ms")
    case (Some mf)
    then obtain m f where mf: "FindFormat VP9 ms = Some (m, f)" by (cases mf) simp
    with n1 selected_track [OF mf, of E] show ?thesis
      by (simp add: firstOf_video_cases createVideoTrack_def)
  next
    case n2: None
    show ?thesis
    proof (cases "FindFormat VP8 ms")
      case (Some mf)
      then obtain m f where mf: "FindFormat VP8 ms = Some (m, f)" by (cases mf) simp
      with n1 n2 selected_track [OF mf, of E] show ?thesis
        by (simp add: firstOf_video_cases createVideoTrack_def)
    next
      case n3: None
      show ?thesis
      proof (cases "FindFormat H264 ms")
        case (Some mf)
        then obtain m f where mf: "FindFormat H264 ms = Some (m, f)" by (cases mf) simp
        with n1 n2 n3 selected_track [OF mf, of E] show ?thesis
          by (simp add: firstOf_video_cases createVideoTrack_def)
      next
        case None
        with n1 n2 n3 show ?thesis
          by (simp add: firstOf_video_cases createVideoTrack_def)
      qed
    qed
  qed
qed

lemma createAudioTrack_selects:
  "(case firstOf audioCodecs ms of
      None \<Rightarrow> createAudioTrack E ms = Inr None
    | Some k \<Rightarrow> selected E k ms (createAudioTrack E ms))"
proof (cases "FindFormat Opus ms")
    case (Some mf)
    then obtain m f where mf: "FindFormat Opus ms = Some (m, f)" by (cases mf) simp
    with selected_track [OF mf, of E] show ?thesis
      by (simp add: firstOf_audio_cases createAudioTrack_def)
next
  case n1: None
  show ?thesis
  proof (cases "FindFormat G722 ms")
    case (Some mf)
    then obtain m f where mf: "FindFormat G722 ms = Some (m, f)" by (cases mf) simp
    with n1 selected_track [OF mf, of E] show ?thesis
      by (simp add: firstOf_audio_cases createAudioTrack_def)
  next
    case n2: None
    show ?thesis
    proof (cases "FindFormat G711 ms")
      case (Some mf)
      then obtain m f where mf: "FindFormat G711 ms = Some (m, f)" by (cases mf) simp
      with n1 n2 selected_track [OF mf, of E] show ?thesis
        by (simp add: firstOf_audio_cases createAudioTrack_def Let_def)
    next
      case None
      with n1 n2 show ?thesis
        by (simp add: firstOf_audio_cases createAudioTrack_def)
    qed
  qed
qed

lemma runInnerTracks_of_tracks:
  "createVideoTrack E ms = Inr v \<Longrightarrow> createAudioTrack E ms = Inr a \<Longrightarrow>
   runInnerTracks E ms =
     (if v = None \<and> a = None then Inl unsupportedCodec else Inr (asList v @ asList a))"
  by (cases v; cases a) (simp_all add: runInnerTracks_def asList_def)

lemma runInnerTracks_errors:
  "(createVideoTrack E ms = Inl e \<longrightarrow> runInnerTracks E ms = Inl e) \<and>
   (createVideoTrack E ms = Inr v \<and> createAudioTrack E ms = Inl e \<longrightarrow> runInnerTracks E ms = Inl e)"
  by (simp add: runInnerTracks_def)

lemma runInner_handshake:
  "pmReaderAdd E (runInnerReq c) = Inr (pa, st) \<Longrightarrow> runInnerTracks E (medias st) = Inr ts \<Longrightarrow>
   runInner E c =
     (fst (handshake E c pa st ts),
      CallReaderAdd (runInnerReq c) # snd (handshake E c pa st ts)
        @ [CallReaderRemove (Some pa) (WebRTCConn (connID c))])"
  by (simp add: runInner_def Let_def split: prod.splits)

text \<open>
  C10. Writing \<open>firstOf\<close> for the first codec of a priority list that the stream has a
  format of:
  \<^item> \<open>createVideoTrack\<close> follows AV1, VP9, VP8, H264: with none of them in the stream it
    returns no track; otherwise it returns a track on the first format of the first of
    them present, or the error \<open>webrtc.NewTrackLocalStaticRTP\<close> returned;
  \<^item> \<open>createAudioTrack\<close> does the same along Opus, G722, G711;
  \<^item> the tracks of the reader are the video track, if any, followed by the audio
    track, if any; with neither, the unsupported-codec error; an error of either
    function is returned as it is;
  \<^item> so the tracks are at least one, at most one of a video codec and at most one of an
    audio codec, each on a media and format of the stream;
  \<^item> for an admitted reader these tracks are the ones the rest of \<open>runInner\<close> (the
    handshake and the streaming) is entered with;
  \<^item> and when the stream of an admitted reader has no format of these seven codecs,
    \<open>runInner\<close> returns the unsupported-codec error having called only \<open>readerAdd\<close> and
    the deferred \<open>readerRemove\<close>: the handshake is not entered.
\<close>

theorem webrtc_track_selection:
  "(case firstOf videoCodecs ms of
      None \<Rightarrow> createVideoTrack E ms = Inr None
    | Some k \<Rightarrow> selected E k ms (createVideoTrack E ms)) \<and>
   (case firstOf audioCodecs ms of
      None \<Rightarrow> createAudioTrack E ms = Inr None
    | Some k \<Rightarrow> selected E k ms (createAudioTrack E ms)) \<and>
   (\<forall>v a. createVideoTrack E ms = Inr v \<and> createAudioTrack E ms = Inr a \<longrightarrow>
      runInnerTracks E ms =
        (if v = None \<and> a = None then Inl unsupportedCodec else Inr (asList v @ asList a))) \<and>
   (\<forall>e. createVideoTrack E ms = Inl e \<longrightarrow> runInnerTracks E ms = Inl e) \<and>
   (\<forall>v e. createVideoTrack E ms = Inr v \<and> createAudioTrack E ms = Inl e \<longrightarrow>
      runInnerTracks E ms = Inl e) \<and>
   (\<forall>ts. runInnerTracks E ms = Inr ts \<longrightarrow>
      ts \<noteq> [] \<and>
      length (filter (\<lambda>t. codecOf (trackFormat t) \<in> set videoCodecs) ts) \<le> 1 \<and>
      length (filter (\<lambda>t. codecOf (trackFormat t) \<in> set audioCodecs) ts) \<le> 1 \<and>
      (\<forall>t \<in> set ts. codecOf (trackFormat t) \<in> set (videoCodecs @ audioCodecs) \<and>
         trackMedia t \<in> set ms \<and> trackFormat t \<in> set (Formats (trackMedia t)))) \<and>
   (\<forall>pa st ts. pmReaderAdd E (runInnerReq c) = Inr (pa, st) \<and>
      runInnerTracks E (medias st) = Inr ts \<longrightarrow>
      runInner E c =
        (fst (handshake E c pa st ts),
         CallReaderAdd (runInnerReq c) # snd (handshake E c pa st ts)
           @ [CallReaderRemove (Some pa) (WebRTCConn (connID c))])) \<and>
   (\<forall>pa st. pmReaderAdd E (runInnerReq c) = Inr (pa, st) \<and>
      firstOf (videoCodecs @ audioCodecs) (medias st) = None \<longrightarrow>
      runInner E c =
        (unsupportedCodec,
         [CallReaderAdd (runInnerReq c), CallReaderRemove (Some pa) (WebRTCConn (connID c))]))"
proof -
  have u: "runInner E c =
          (unsupportedCodec,
           [CallReaderAdd (runInnerReq c), CallReaderRemove (Some pa) (WebRTCConn (connID c))])"
    if "pmReaderAdd E (runInnerReq c) = Inr (pa, st)"
      "firstOf (videoCodecs @ audioCodecs) (medias st) = None" for pa st
    using that(1) runInnerTracks_unsupported [OF that(2), of E]
    by (simp add: runInner_def Let_def)
  show ?thesis
    using createVideoTrack_selects [where ms = ms and E = E]
      createAudioTrack_selects [where ms = ms and E = E]
      runInnerTracks_of_tracks [of E ms] runInnerTracks_errors [of E ms]
      runInnerTracks_shape [of E ms] runInner_handshake [of E c] u
    by blast
qed

lemma demo_medias:
  "medias demoStream = [\<lparr>control = ''0'',
          Formats = [\<lparr>codecOf = H264, PayloadTyp = 96, ClockRate = 90000, MULaw = False\<rparr>,
                     \<lparr>codecOf = VP8, PayloadTyp = 97, ClockRate = 90000, MULaw = False\<rparr>]\<rparr>,
         \<lparr>control = ''1'',
          Formats = [\<lparr>codecOf = G711, PayloadTyp = 0, ClockRate = 8000, MULaw = True\<rparr>]\<rparr>]"
  "medias legacyStream = [\<lparr>control = ''0'',
          Formats = [\<lparr>codecOf = H265, PayloadTyp = 96, ClockRate = 90000, MULaw = False\<rparr>]\<rparr>]"
  by (simp_all add: demoStream_def legacyStream_def)

lemma demo_video:
  "createVideoTrack demoWebrtcEnv (medias demoStream) =
     Inr (Some \<lparr>trackMedia = hd (medias demoStream),
                trackFormat = \<lparr>codecOf = VP8, PayloadTyp = 97, ClockRate = 90000, MULaw = False\<rparr>,
                webRTCTrak = \<lparr>trackCodec = \<lparr>MimeType = ''video/VP8'', capClockRate = 90000\<rparr>,
                              trackID = ''vp8'', trackStreamID = ''rtspss''\<rparr>,
                cb = Encode VP8 96 1188\<rparr>)"
  by (simp add: createVideoTrack_def NewTrackLocalStaticRTP_def demoWebrtcEnv_def demo_medias
      uint32_def webrtcPayloadMaxSize_def)

lemma demo_audio:
  "createAudioTrack demoWebrtcEnv (medias demoStream) =
     Inr (Some \<lparr>trackMedia = hd (tl (medias demoStream)),
                trackFormat = \<lparr>codecOf = G711, PayloadTyp = 0, ClockRate = 8000, MULaw = True\<rparr>,
                webRTCTrak = \<lparr>trackCodec = \<lparr>MimeType = ''audio/PCMU'', capClockRate = 8000\<rparr>,
                              trackID = ''g711'', trackStreamID = ''rtspss''\<rparr>,
                cb = Forward\<rparr>)"
  by (simp add: createAudioTrack_def NewTrackLocalStaticRTP_def demoWebrtcEnv_def demo_medias
      uint32_def Let_def)

lemma demo_tracks:
  "runInnerTracks demoWebrtcEnv (medias demoStream) =
     Inr [\<lparr>trackMedia = hd (medias demoStream),
           trackFormat = \<lparr>codecOf = VP8, PayloadTyp = 97, ClockRate = 90000, MULaw = False\<rparr>,
           webRTCTrak = \<lparr>trackCodec = \<lparr>MimeType = ''video/VP8'', capClockRate = 90000\<rparr>,
                         trackID = ''vp8'', trackStreamID = ''rtspss''\<rparr>,
           cb = Encode VP8 96 1188\<rparr>,
          \<lparr>trackMedia = hd (tl (medias demoStream)),
           trackFormat = \<lparr>codecOf = G711, PayloadTyp = 0, ClockRate = 8000, MULaw = True\<rparr>,
           webRTCTrak = \<lparr>trackCodec = \<lparr>MimeType = ''audio/PCMU'', capClockRate = 8000\<rparr>,
                         trackID = ''g711'', trackStreamID = ''rtspss''\<rparr>,
           cb = Forward\<rparr>]"
  by (simp add: runInnerTracks_def demo_video demo_audio)

theorem webrtc_track_selection_witness:
  "firstOf videoCodecs (medias demoStream) = Some VP8 \<and>
   firstOf audioCodecs (medias demoStream) = Some G711 \<and>
   createVideoTrack demoWebrtcEnv (medias demoStream) =
     Inr (Some \<lparr>trackMedia = hd (medias demoStream),
                trackFormat = \<lparr>codecOf = VP8, PayloadTyp = 97, ClockRate = 90000, MULaw = False\<rparr>,
                webRTCTrak = \<lparr>trackCodec = \<lparr>MimeType = ''video/VP8'', capClockRate = 90000\<rparr>,
                              trackID = ''vp8'', trackStreamID = ''rtspss''\<rparr>,
                cb = Encode VP8 96 1188\<rparr>) \<and>
   createAudioTrack demoWebrtcEnv (medias demoStream) =
     Inr (Some \<lparr>trackMedia = hd (tl (medias demoStream)),
                trackFormat = \<lparr>codecOf = G711, PayloadTyp = 0, ClockRate = 8000, MULaw = True\<rparr>,
                webRTCTrak = \<lparr>trackCodec = \<lparr>MimeType = ''audio/PCMU'', capClockRate = 8000\<rparr>,
                              trackID = ''g711'', trackStreamID = ''rtspss''\<rparr>,
                cb = Forward\<rparr>) \<and>
   pmReaderAdd demoWebrtcEnv (runInnerReq (demoWebRTCConn ''cam'')) = Inr (''cam'', demoStream) \<and>
   runInner demoWebrtcEnv (demoWebRTCConn ''cam'') =
     (errorString ''peer connection closed, tracks: vp8 g711'',
      [CallReaderAdd (runInnerReq (demoWebRTCConn ''cam'')),
       CallReaderRemove (Some ''cam'') (WebRTCConn ''w1'')]) \<and>
   pmReaderAdd demoWebrtcEnv (runInnerReq (demoWebRTCConn ''legacy'')) = Inr (''legacy'', legacyStream) \<and>
   firstOf (videoCodecs @ audioCodecs) (medias legacyStream) = None \<and>
   runInner demoWebrtcEnv (demoWebRTCConn ''legacy'') =
     (unsupportedCodec,
      [CallReaderAdd (runInnerReq (demoWebRTCConn ''legacy'')),
       CallReaderRemove (Some ''legacy'') (WebRTCConn ''w1'')])"
proof -
  have r: "pmReaderAdd demoWebrtcEnv (runInnerReq (demoWebRTCConn ''legacy'')) = Inr (''legacy'', legacyStream)"
    by (simp add: demoWebrtcEnv_def demoReaderAdd_def runInnerReq_def demoWebRTCConn_def)
  have r': "pmReaderAdd demoWebrtcEnv (runInnerReq (demoWebRTCConn ''cam'')) = Inr (''cam'', demoStream)"
    by (simp add: demoWebrtcEnv_def demoReaderAdd_def runInnerReq_def demoWebRTCConn_def)
  have n: "firstOf (videoCodecs @ audioCodecs) (medias legacyStream) = None"
    by (simp add: videoCodecs_def audioCodecs_def demo_medias)
  have h: "handshake demoWebrtcEnv c pa st ts =
      (errorString (''peer connection closed, tracks:''
              @ concat (map (\<lambda>t. '' '' @ trackID (webRTCTrak t)) ts)), [])" for c pa st ts
    by (simp add: demoWebrtcEnv_def)
  have fv: "firstOf videoCodecs (medias demoStream) = Some VP8"
    and fa: "firstOf audioCodecs (medias demoStream) = Some G711"
    by (simp_all add: videoCodecs_def audioCodecs_def demo_medias)
  from webrtc_track_selection [where ms = "medias demoStream" and E = demoWebrtcEnv
        and c = "demoWebRTCConn ''cam''"] r' demo_tracks
  have "runInner demoWebrtcEnv (demoWebRTCConn ''cam'') =
        (fst (handshake demoWebrtcEnv (demoWebRTCConn ''cam'') ''cam'' demoStream
                (projr (runInnerTracks demoWebrtcEnv (medias demoStream)))),
         CallReaderAdd (runInnerReq (demoWebRTCConn ''cam''))
           # snd (handshake demoWebrtcEnv (demoWebRTCConn ''cam'') ''cam'' demoStream
                (projr (runInnerTracks demoWebrtcEnv (medias demoStream))))
           @ [CallReaderRemove (Some ''cam'') (WebRTCConn (connID (demoWebRTCConn ''cam'')))])"
    by (simp only: sum.sel)
  then have cam: "runInner demoWebrtcEnv (demoWebRTCConn ''cam'') =
     (errorString ''peer connection closed, tracks: vp8 g711'',
      [CallReaderAdd (runInnerReq (demoWebRTCConn ''cam'')),
       CallReaderRemove (Some ''cam'') (WebRTCConn ''w1'')])"
    by (simp add: h demo_tracks demoWebRTCConn_def)
  from webrtc_track_selection [where ms = "medias demoStream" and E = demoWebrtcEnv
        and c = "demoWebRTCConn ''legacy''"] r n
  have "runInner demoWebrtcEnv (demoWebRTCConn ''legacy'') =
     (unsupportedCodec,
      [CallReaderAdd (runInnerReq (demoWebRTCConn ''legacy'')),
       CallReaderRemove (Some ''legacy'') (WebRTCConn (connID (demoWebRTCConn ''legacy'')))])"
    by blast
  then have legacy: "runInner demoWebrtcEnv (demoWebRTCConn ''legacy'') =
     (unsupportedCodec,
      [CallReaderAdd (runInnerReq (demoWebRTCConn ''legacy'')),
       CallReaderRemove (Some ''legacy'') (WebRTCConn ''w1'')])"
    by (simp add: demoWebRTCConn_def)
  from fv fa demo_video demo_audio r' cam r n legacy show ?thesis
    by (intro conjI)
qed

end
